theory Spec2Isabelle
  imports Main "HOL-Library.AList" "HOL-Library.Word"
begin

section \<open>The deposit record (types/Deposit.type.ts)\<close>

text \<open>
  The record keeps the nesting of the TypeScript type, so that an update in the model
  reads like the object spread it embeds. Epoch milliseconds are integers, a nullable
  field is an option, \<open>status\<close> is a number as in the type (\<open>status: number\<close>).
  The field \<open>id\<close> is written \<open>deposit_id\<close> (\<open>id\<close> is the identity function of HOL).
\<close>

record btc_hashes =
  btcTxHash :: string

record eth_hashes =
  initializeTxHash :: "string option"
  finalizeTxHash :: "string option"

record deposit_hashes =
  btc :: btc_hashes
  eth :: eth_hashes

record deposit_receipt =
  depositor :: string
  blindingFactor :: string
  walletPublicKeyHash :: string
  refundPublicKeyHash :: string
  refundLocktime :: string
  extraData :: string

text \<open>
  The funding transaction of an event. \<open>createDeposit\<close> reads its four declared fields;
  the past-deposit scan of the EVM handler also reads \<open>fundingTx.transactionHash\<close>, a key
  that is \<open>undefined\<close> unless the event object happens to carry it: \<open>None\<close> is undefined.
\<close>

record funding_tx =
  version :: string
  inputVector :: string
  outputVector :: string
  locktime :: string
  transactionHash :: "string option"

text \<open>The reveal tuple, positional in the source: \<open>reveal[0]\<close> .. \<open>reveal[5]\<close>.\<close>

record reveal_tuple =
  reveal0 :: nat
  reveal1 :: string
  reveal2 :: string
  reveal3 :: string
  reveal4 :: string
  reveal5 :: string

record l1_output_event =
  fundingTx :: funding_tx
  reveal :: reveal_tuple
  l2DepositOwner :: string
  l2Sender :: string

record deposit_dates =
  createdAt :: "int option"
  initializationAt :: "int option"
  finalizationAt :: "int option"
  lastActivityAt :: int

record deposit =
  deposit_id :: string
  fundingTxHash :: string
  outputIndex :: nat
  hashes :: deposit_hashes
  receipt :: deposit_receipt
  L1OutputEvent :: l1_output_event
  owner :: string
  status :: nat
  dates :: deposit_dates
  error :: "string option"

text \<open>
  Modelled from the spec: the enum \<open>DepositStatus\<close> (types/DepositStatus.enum.ts is not
  among the sources): "QUEUED=0, INITIALIZED=1, FINALIZED=2", numeric, compared with
  the number read from the L1 contract.
\<close>

definition QUEUED :: nat where
  "QUEUED = 0"

definition INITIALIZED :: nat where
  "INITIALIZED = 1"

definition FINALIZED :: nat where
  "FINALIZED = 2"

section \<open>JavaScript values the update functions receive\<close>

text \<open>
  The parameter \<open>tx?: any\<close> of the update functions receives, in this repository, a
  transaction response (an object with a \<open>hash\<close>), \<open>null\<close>, nothing at all, or a string
  (\<open>"Deposit already finalized"\<close>). \<open>truthy\<close> is the test \<open>tx ? .. : ..\<close> and \<open>tx_hash\<close> is
  \<open>tx?.hash ? tx.hash : null\<close>: a string has no \<open>hash\<close>, and an empty hash is falsy.
\<close>

datatype tx_arg = Nullish | TxObject "string option" | TxString string

fun truthy :: "tx_arg \<Rightarrow> bool" where
  "truthy Nullish = False"
| "truthy (TxObject h) = True"
| "truthy (TxString s) = (s \<noteq> [])"

fun tx_hash :: "tx_arg \<Rightarrow> string option" where
  "tx_hash (TxObject (Some h)) = (if h = [] then None else Some h)"
| "tx_hash (TxObject None) = None"
| "tx_hash (TxString s) = None"
| "tx_hash Nullish = None"

text \<open>\<open>error ? error : null\<close> for the parameter \<open>error?: string\<close> (\<open>None\<close>: not passed).\<close>

fun error_or_null :: "string option \<Rightarrow> string option" where
  "error_or_null None = None"
| "error_or_null (Some e) = (if e = [] then None else Some e)"

section \<open>The deposit store (utils/JsonUtils.ts) and the observable effects\<close>

text \<open>
  One JSON file per key under the data directory: an association list from the file's
  key to the record in it, in directory order. Writes to the file system are taken to
  succeed and files to parse (\<open>writeJson\<close> and \<open>getAllJsonOperations\<close> log and go on
  otherwise). Next to the store the world keeps a trace of what a run does to the
  outside: every file written and every contract call, in order.
\<close>

datatype effect =
    Wrote string
  | ReadDeposits string
  | CallStaticInitialize string
  | SendInitialize string
  | CallStaticFinalize string
  | SendFinalize string

record world =
  store :: "(string \<times> deposit) list"
  trace :: "effect list"

definition emit :: "effect \<Rightarrow> world \<Rightarrow> world" where
  "emit e w = w\<lparr>trace := trace w @ [e]\<rparr>"

definition getJsonById :: "string \<Rightarrow> world \<Rightarrow> deposit option" where
  "getJsonById operationId w = map_of (store w) operationId"

definition writeJson :: "deposit \<Rightarrow> string \<Rightarrow> world \<Rightarrow> world" where
  "writeJson data operationId w =
     emit (Wrote operationId) (w\<lparr>store := AList.update operationId data (store w)\<rparr>)"

definition getAllJsonOperations :: "world \<Rightarrow> deposit list" where
  "getAllJsonOperations w = map snd (store w)"

text \<open>
  \<open>getAllJsonOperationsByStatus\<close> keeps the operations with
  \<open>operation.status === status\<close>. Its parameter is documented as the numeric enum value;
  the callers in this repository pass the name of the enum member, a string. Both kinds
  of argument are values of \<open>status_arg\<close>, and \<open>===\<close> between the stored number and a
  string is false.
\<close>

datatype status_arg = StatusNumber nat | StatusName string

definition getAllJsonOperationsByStatus :: "status_arg \<Rightarrow> world \<Rightarrow> deposit list" where
  "getAllJsonOperationsByStatus st w =
     filter (\<lambda>operation. StatusNumber (status operation) = st) (getAllJsonOperations w)"

section \<open>Deposit ids (getDepositId in utils/Deposits.ts)\<close>

text \<open>
  \<open>getDepositId\<close> calls three functions of the ethers library, modelled here on what they
  do to the values this function hands them: \<open>solidityPack(['bytes32', 'uint32'], ..)\<close>
  turns a hex string into 32 bytes, appends the index as four big-endian bytes and
  returns the hex string of the 36 bytes; \<open>keccak256\<close> reads a hex string back into
  bytes and returns the digest as a hex string; \<open>BigNumber.from(..).toString()\<close> reads
  a hex string as a number and prints it in decimal. The digest itself is a parameter
  \<open>K\<close> of the model (Keccak-256 on bytes). A string is a list of characters whose
  length is the \<open>length\<close> of the JavaScript string. The parameter \<open>fundingTxHash\<close> is
  written \<open>fundingHash\<close> (the record field has the name).
\<close>

type_synonym byte = "8 word"

datatype failure =
    InvalidFundingTxHash
  | InvalidHexData
  | InvalidBytes32
  | ValueOutOfRange

definition hex_digit_value :: "char \<Rightarrow> nat option" where
  "hex_digit_value c =
     (let n = (of_char c :: nat) in
      if 48 \<le> n \<and> n \<le> 57 then Some (n - 48)
      else if 97 \<le> n \<and> n \<le> 102 then Some (n - 87)
      else if 65 \<le> n \<and> n \<le> 70 then Some (n - 55)
      else None)"

text \<open>The lower-case digit of a nibble; it is only ever asked for \<open>n < 16\<close>.\<close>

definition hex_digit :: "nat \<Rightarrow> char" where
  "hex_digit n = ''0123456789abcdef'' ! n"

fun hex_pairs :: "string \<Rightarrow> byte list option" where
  "hex_pairs [] = Some []"
| "hex_pairs [c] = None"
| "hex_pairs (c1 # c2 # cs) =
     (case hex_digit_value c1 of None \<Rightarrow> None | Some a \<Rightarrow>
      (case hex_digit_value c2 of None \<Rightarrow> None | Some b \<Rightarrow>
       (case hex_pairs cs of None \<Rightarrow> None | Some bs \<Rightarrow> Some (of_nat (a * 16 + b) # bs))))"

fun strip_0x :: "string \<Rightarrow> string option" where
  "strip_0x (c0 # cx # cs) = (if c0 = CHR ''0'' \<and> cx = CHR ''x'' then Some cs else None)"
| "strip_0x cs = None"

definition arrayify :: "string \<Rightarrow> byte list option" where
  "arrayify s = (case strip_0x s of None \<Rightarrow> None | Some cs \<Rightarrow> hex_pairs cs)"

definition byte_hex :: "byte \<Rightarrow> string" where
  "byte_hex b = [hex_digit (unat b div 16), hex_digit (unat b mod 16)]"

definition hexlify :: "byte list \<Rightarrow> string" where
  "hexlify bs = ''0x'' @ concat (map byte_hex bs)"

text \<open>\<open>zeroPad(BigNumber.from(n).toTwos(32), 4)\<close> for a number that fits: four bytes, high first.\<close>

definition uint32_be :: "nat \<Rightarrow> byte list" where
  "uint32_be n = [of_nat (n div 2 ^ 24), of_nat (n div 2 ^ 16), of_nat (n div 2 ^ 8), of_nat n]"

definition solidityPack_bytes32_uint32 :: "string \<Rightarrow> nat \<Rightarrow> failure + string" where
  "solidityPack_bytes32_uint32 v n =
     (case arrayify v of
        None \<Rightarrow> Inl InvalidHexData
      | Some bs \<Rightarrow>
          if length bs \<noteq> 32 then Inl InvalidBytes32
          else if \<not> n < 2 ^ 32 then Inl ValueOutOfRange
          else Inr (hexlify (bs @ uint32_be n)))"

definition keccak256 :: "(byte list \<Rightarrow> byte list) \<Rightarrow> string \<Rightarrow> failure + string" where
  "keccak256 K data =
     (case arrayify data of None \<Rightarrow> Inl InvalidHexData | Some bs \<Rightarrow> Inr (hexlify (K bs)))"

fun hex_nat :: "nat \<Rightarrow> string \<Rightarrow> nat option" where
  "hex_nat acc [] = Some acc"
| "hex_nat acc (c # cs) =
     (case hex_digit_value c of None \<Rightarrow> None | Some v \<Rightarrow> hex_nat (acc * 16 + v) cs)"

definition BigNumber_from :: "string \<Rightarrow> nat option" where
  "BigNumber_from s = (case strip_0x s of None \<Rightarrow> None | Some cs \<Rightarrow> hex_nat 0 cs)"

fun BigNumber_toString :: "nat \<Rightarrow> string" where
  "BigNumber_toString n =
     (if n < 10 then [''0123456789'' ! n]
      else BigNumber_toString (n div 10) @ [''0123456789'' ! (n mod 10)])"

declare BigNumber_toString.simps [simp del]

definition getDepositId ::
  "(byte list \<Rightarrow> byte list) \<Rightarrow> string \<Rightarrow> nat \<Rightarrow> failure + string" where
  "getDepositId K fundingHash fundingOutputIndex =
     (if length fundingHash \<noteq> 64 then Inl InvalidFundingTxHash
      else
        let fundingTxHashBytes = ''0x'' @ fundingHash in
        case solidityPack_bytes32_uint32 fundingTxHashBytes fundingOutputIndex of
          Inl e \<Rightarrow> Inl e
        | Inr encodedData \<Rightarrow>
            (case keccak256 K encodedData of
               Inl e \<Rightarrow> Inl e
             | Inr hash \<Rightarrow>
                 (case BigNumber_from hash of
                    None \<Rightarrow> Inl InvalidHexData
                  | Some depositKey \<Rightarrow> Inr (BigNumber_toString depositKey))))"

text \<open>
  The id as the specification words it: the decimal representation of
  \<open>keccak256(bytes32(fundingTxHash) || uint32_be(outputIndex))\<close> read as an unsigned
  big-endian integer. Nothing here is taken from the model of the code above: a hex
  character is looked up in a table, \<open>be_bytes k n\<close> are the \<open>k\<close> low bytes of \<open>n\<close>, high
  first, and a string is the decimal representation of a number when it consists of
  decimal digits, has no leading zero and has the number as its value.
\<close>

definition is_hex_char :: "char \<Rightarrow> bool" where
  "is_hex_char c \<longleftrightarrow> c \<in> set ''0123456789abcdefABCDEF''"

definition hexval :: "char \<Rightarrow> nat" where
  "hexval c =
     (case map_of (zip ''0123456789abcdef'' [0 ..< 16] @ zip ''ABCDEF'' [10 ..< 16]) c of
        None \<Rightarrow> 0
      | Some v \<Rightarrow> v)"

fun bytes_of_hex :: "string \<Rightarrow> byte list" where
  "bytes_of_hex (c1 # c2 # cs) = of_nat (hexval c1 * 16 + hexval c2) # bytes_of_hex cs"
| "bytes_of_hex cs = []"

fun be_bytes :: "nat \<Rightarrow> nat \<Rightarrow> byte list" where
  "be_bytes 0 n = []"
| "be_bytes (Suc k) n = be_bytes k (n div 256) @ [of_nat (n mod 256)]"

definition be_nat :: "byte list \<Rightarrow> nat" where
  "be_nat bs = foldl (\<lambda>a b. a * 256 + unat b) 0 bs"

definition digit_value :: "char \<Rightarrow> nat" where
  "digit_value c =
     (case map_of (zip ''0123456789'' [0 ..< 10]) c of None \<Rightarrow> 0 | Some v \<Rightarrow> v)"

definition decimal_value :: "string \<Rightarrow> nat" where
  "decimal_value s = foldl (\<lambda>a c. a * 10 + digit_value c) 0 s"

definition is_decimal_of :: "string \<Rightarrow> nat \<Rightarrow> bool" where
  "is_decimal_of s n \<longleftrightarrow>
     s \<noteq> [] \<and> list_all (\<lambda>c. c \<in> set ''0123456789'') s \<and>
     (s = ''0'' \<or> hd s \<in> set ''123456789'') \<and> decimal_value s = n"

definition spec_deposit_key :: "(byte list \<Rightarrow> byte list) \<Rightarrow> string \<Rightarrow> nat \<Rightarrow> nat" where
  "spec_deposit_key K fundingHash i = be_nat (K (bytes_of_hex fundingHash @ be_bytes 4 i))"

section \<open>Record updates (utils/Deposits.ts)\<close>

text \<open>\<open>now\<close> is the value of \<open>Date.now()\<close> during the call.\<close>

definition updateToFinalizedDeposit ::
  "int \<Rightarrow> deposit \<Rightarrow> tx_arg \<Rightarrow> string option \<Rightarrow> world \<Rightarrow> world" where
  "updateToFinalizedDeposit now d tx err w =
     (let newStatus = (if truthy tx then FINALIZED else status d);
          newFinalizationAt = (if truthy tx then Some now else finalizationAt (dates d));
          newHash = (if truthy tx
                     then (hashes d)\<lparr>eth := (eth (hashes d))\<lparr>finalizeTxHash := tx_hash tx\<rparr>\<rparr>
                     else hashes d);
          updatedDeposit = d\<lparr>status := newStatus,
                             dates := (dates d)\<lparr>finalizationAt := newFinalizationAt,
                                                lastActivityAt := now\<rparr>,
                             hashes := newHash,
                             error := error_or_null err\<rparr>
      in writeJson updatedDeposit (deposit_id d) w)"

definition updateToInitializedDeposit ::
  "int \<Rightarrow> deposit \<Rightarrow> tx_arg \<Rightarrow> string option \<Rightarrow> world \<Rightarrow> world" where
  "updateToInitializedDeposit now d tx err w =
     (let newStatus = (if truthy tx then INITIALIZED else status d);
          newInitializationAt = (if truthy tx then Some now else initializationAt (dates d));
          newHash = (if truthy tx
                     then (hashes d)\<lparr>eth := (eth (hashes d))\<lparr>initializeTxHash := tx_hash tx\<rparr>\<rparr>
                     else hashes d);
          updatedDeposit = d\<lparr>status := newStatus,
                             dates := (dates d)\<lparr>initializationAt := newInitializationAt,
                                                lastActivityAt := now\<rparr>,
                             hashes := newHash,
                             error := error_or_null err\<rparr>
      in writeJson updatedDeposit (deposit_id d) w)"

definition updateLastActivity :: "int \<Rightarrow> deposit \<Rightarrow> world \<Rightarrow> deposit \<times> world" where
  "updateLastActivity now d w =
     (let updatedDeposit = d\<lparr>dates := (dates d)\<lparr>lastActivityAt := now\<rparr>\<rparr>
      in (updatedDeposit, writeJson updatedDeposit (deposit_id d) w))"

definition updateDepositStatus :: "int \<Rightarrow> deposit \<Rightarrow> nat \<Rightarrow> deposit" where
  "updateDepositStatus now d newStatus =
     d\<lparr>status := newStatus, dates := (dates d)\<lparr>lastActivityAt := now\<rparr>\<rparr>"

datatype tx_type = Initialize | Finalize

definition updateDepositHashes :: "int \<Rightarrow> deposit \<Rightarrow> nat \<Rightarrow> string \<Rightarrow> tx_type \<Rightarrow> deposit" where
  "updateDepositHashes now d newStatus txHash txType =
     (let updatedHashes =
            (hashes d)\<lparr>eth := (case txType of
                                  Initialize \<Rightarrow> (eth (hashes d))\<lparr>initializeTxHash := Some txHash\<rparr>
                                | Finalize \<Rightarrow> (eth (hashes d))\<lparr>finalizeTxHash := Some txHash\<rparr>)\<rparr>;
          updatedDates =
            (case txType of
               Initialize \<Rightarrow> (dates d)\<lparr>initializationAt := Some now, lastActivityAt := now\<rparr>
             | Finalize \<Rightarrow> (dates d)\<lparr>finalizationAt := Some now, lastActivityAt := now\<rparr>)
      in d\<lparr>status := newStatus, hashes := updatedHashes, dates := updatedDates, error := None\<rparr>)"

text \<open>
  \<open>createDeposit\<close>. The two Bitcoin hashing functions of utils/GetTransactionHash.ts and
  the digest are handed in (\<open>externals\<close>). The parameters \<open>fundingTx\<close>, \<open>reveal\<close>,
  \<open>l2DepositOwner\<close> and \<open>l2Sender\<close> are written \<open>ftx\<close>, \<open>rv\<close>, \<open>l2Owner\<close> and \<open>sender\<close>. The
  function throws where \<open>getDepositId\<close> does.
\<close>

record externals =
  keccak :: "byte list \<Rightarrow> byte list"
  getFundingTxHash :: "funding_tx \<Rightarrow> string"
  getTransactionHash :: "funding_tx \<Rightarrow> string"

definition createDeposit ::
  "externals \<Rightarrow> int \<Rightarrow> funding_tx \<Rightarrow> reveal_tuple \<Rightarrow> string \<Rightarrow> string \<Rightarrow> failure + deposit" where
  "createDeposit ext now ftx rv l2Owner sender =
     (let fundingHash = getFundingTxHash ext ftx in
      case getDepositId (keccak ext) fundingHash (reveal0 rv) of
        Inl e \<Rightarrow> Inl e
      | Inr depositId \<Rightarrow>
          Inr \<lparr>deposit_id = depositId,
               fundingTxHash = fundingHash,
               outputIndex = reveal0 rv,
               hashes = \<lparr>btc = \<lparr>btcTxHash = getTransactionHash ext ftx\<rparr>,
                         eth = \<lparr>initializeTxHash = None, finalizeTxHash = None\<rparr>\<rparr>,
               receipt = \<lparr>depositor = sender,
                          blindingFactor = reveal1 rv,
                          walletPublicKeyHash = reveal2 rv,
                          refundPublicKeyHash = reveal3 rv,
                          refundLocktime = reveal4 rv,
                          extraData = reveal5 rv\<rparr>,
               L1OutputEvent =
                 \<lparr>fundingTx = \<lparr>version = version ftx, inputVector = inputVector ftx,
                                outputVector = outputVector ftx, locktime = locktime ftx,
                                transactionHash = None\<rparr>,
                  reveal = rv, l2DepositOwner = l2Owner, l2Sender = sender\<rparr>,
               owner = l2Owner,
               status = QUEUED,
               dates = \<lparr>createdAt = Some now, initializationAt = None,
                        finalizationAt = None, lastActivityAt = now\<rparr>,
               error = None\<rparr>)"

text \<open>
  Modelled from the spec: \<open>writeNewJsonDeposit\<close>, which utils/JsonUtils.ts as given does
  not define: "construct a new record, write-if-absent to the Store"; "write-if-absent
  preserves the earlier record".
\<close>

definition writeNewJsonDeposit ::
  "externals \<Rightarrow> int \<Rightarrow> funding_tx \<Rightarrow> reveal_tuple \<Rightarrow> string \<Rightarrow> string \<Rightarrow> world \<Rightarrow> failure + world" where
  "writeNewJsonDeposit ext now ftx rv l2Owner sender w =
     (case createDeposit ext now ftx rv l2Owner sender of
        Inl e \<Rightarrow> Inl e
      | Inr d \<Rightarrow>
          (case getJsonById (deposit_id d) w of
             Some existing \<Rightarrow> Inr w
           | None \<Rightarrow> Inr (writeJson d (deposit_id d) w)))"

section \<open>The EVM chain handler\<close>

text \<open>
  What the chains answer is an input of the model. An awaited call either resolves with
  a value or rejects with an error, of which the handler reads only \<open>error.reason\<close>
  (\<open>None\<close>: the error has none). \<open>reason_of\<close> is
  \<open>error.reason ? error.reason : "Unknown error"\<close>. A transaction response is its hash.
  All clock readings of one invocation return the same \<open>now\<close>.
\<close>

datatype 'a outcome = Resolves 'a | Rejects "string option"

fun reason_of :: "string option \<Rightarrow> string" where
  "reason_of None = ''Unknown error''"
| "reason_of (Some r) = (if r = [] then ''Unknown error'' else r)"

record l1_chain =
  callStatic_initializeDeposit :: "l1_output_event \<Rightarrow> unit outcome"
  getTransactionCount :: "nat outcome"
  send_initializeDeposit :: "l1_output_event \<Rightarrow> nat \<Rightarrow> string outcome"
  tx_wait :: "string \<Rightarrow> unit outcome"
  callStatic_finalizeDeposit :: "string \<Rightarrow> int outcome"
  send_finalizeDeposit :: "string \<Rightarrow> int \<Rightarrow> nat \<Rightarrow> string outcome"
  deposits :: "string \<Rightarrow> nat outcome"

definition TIME_TO_RETRY :: int where
  "TIME_TO_RETRY = 1000 * 60 * 5"

definition initializeDeposit :: "int \<Rightarrow> l1_chain \<Rightarrow> deposit \<Rightarrow> world \<Rightarrow> world" where
  "initializeDeposit now chain d w =
     (let w1 = emit (CallStaticInitialize (deposit_id d)) w in
      case callStatic_initializeDeposit chain (L1OutputEvent d) of
        Rejects r \<Rightarrow> updateToInitializedDeposit now d Nullish (Some (reason_of r)) w1
      | Resolves u \<Rightarrow>
          (case getTransactionCount chain of
             Rejects r \<Rightarrow> updateToInitializedDeposit now d Nullish (Some (reason_of r)) w1
           | Resolves currentNonce \<Rightarrow>
               (let w2 = emit (SendInitialize (deposit_id d)) w1 in
                case send_initializeDeposit chain (L1OutputEvent d) currentNonce of
                  Rejects r \<Rightarrow> updateToInitializedDeposit now d Nullish (Some (reason_of r)) w2
                | Resolves h \<Rightarrow>
                    (case tx_wait chain h of
                       Rejects r \<Rightarrow>
                         updateToInitializedDeposit now d Nullish (Some (reason_of r)) w2
                     | Resolves u' \<Rightarrow>
                         updateToInitializedDeposit now d (TxObject (Some h)) None w2))))"

definition finalizeDeposit :: "int \<Rightarrow> l1_chain \<Rightarrow> deposit \<Rightarrow> world \<Rightarrow> world" where
  "finalizeDeposit now chain d w =
     (let w1 = emit (CallStaticFinalize (deposit_id d)) w in
      case callStatic_finalizeDeposit chain (deposit_id d) of
        Rejects r \<Rightarrow> updateToFinalizedDeposit now d Nullish (Some (reason_of r)) w1
      | Resolves valueRequired \<Rightarrow>
          (let val = (if valueRequired > 0 then valueRequired else 0) in
           case getTransactionCount chain of
             Rejects r \<Rightarrow> updateToFinalizedDeposit now d Nullish (Some (reason_of r)) w1
           | Resolves currentNonce \<Rightarrow>
               (let w2 = emit (SendFinalize (deposit_id d)) w1 in
                case send_finalizeDeposit chain (deposit_id d) val currentNonce of
                  Rejects r \<Rightarrow> updateToFinalizedDeposit now d Nullish (Some (reason_of r)) w2
                | Resolves h \<Rightarrow>
                    (case tx_wait chain h of
                       Rejects r \<Rightarrow>
                         updateToFinalizedDeposit now d Nullish (Some (reason_of r)) w2
                     | Resolves u' \<Rightarrow>
                         updateToFinalizedDeposit now d (TxObject (Some h)) None w2))))"

definition checkDepositStatus :: "l1_chain \<Rightarrow> string \<Rightarrow> world \<Rightarrow> nat \<times> world" where
  "checkDepositStatus chain depositId w =
     (case deposits chain depositId of
        Resolves n \<Rightarrow> (n, emit (ReadDeposits depositId) w)
      | Rejects r \<Rightarrow> (0, emit (ReadDeposits depositId) w))"

definition filterDepositsActivityTime :: "int \<Rightarrow> deposit list \<Rightarrow> deposit list" where
  "filterDepositsActivityTime now ds =
     filter (\<lambda>d. now - lastActivityAt (dates d) > TIME_TO_RETRY) ds"

text \<open>
  The two reconciler passes. \<open>_body\<close> is the body of the \<open>for\<close> loop, \<open>_loop\<close> the loop,
  \<open>_listed\<close> the pass from the statement after the awaited listing on, as a function of
  what the store listed. The pass itself asks the store for \<open>"QUEUED"\<close> (for
  \<open>"INITIALIZED"\<close>), the name of the status.
\<close>

definition processInitializeDeposits_body ::
  "int \<Rightarrow> l1_chain \<Rightarrow> deposit \<Rightarrow> world \<Rightarrow> world" where
  "processInitializeDeposits_body now chain d w =
     (let (updatedDeposit, w1) = updateLastActivity now d w;
          (st, w2) = checkDepositStatus chain (deposit_id updatedDeposit) w1
      in if st = INITIALIZED
         then updateToInitializedDeposit now updatedDeposit
                (TxString ''Deposit already initialized'') None w2
         else if st = QUEUED then initializeDeposit now chain updatedDeposit w2
         else if st = FINALIZED
         then updateToFinalizedDeposit now updatedDeposit
                (TxString ''Deposit already finalized'') None w2
         else w2)"

fun processInitializeDeposits_loop ::
  "int \<Rightarrow> l1_chain \<Rightarrow> deposit list \<Rightarrow> world \<Rightarrow> world" where
  "processInitializeDeposits_loop now chain [] w = w"
| "processInitializeDeposits_loop now chain (d # ds) w =
     processInitializeDeposits_loop now chain ds (processInitializeDeposits_body now chain d w)"

definition processInitializeDeposits_listed ::
  "int \<Rightarrow> l1_chain \<Rightarrow> deposit list \<Rightarrow> world \<Rightarrow> world" where
  "processInitializeDeposits_listed now chain queuedDeposits w =
     (if queuedDeposits = [] then w
      else
        let filteredDeposits = filterDepositsActivityTime now queuedDeposits in
        if filteredDeposits = [] then w
        else processInitializeDeposits_loop now chain filteredDeposits w)"

definition processInitializeDeposits :: "int \<Rightarrow> l1_chain \<Rightarrow> world \<Rightarrow> world" where
  "processInitializeDeposits now chain w =
     (let queuedDeposits = getAllJsonOperationsByStatus (StatusName ''QUEUED'') w
      in processInitializeDeposits_listed now chain queuedDeposits w)"

definition processFinalizeDeposits_body ::
  "int \<Rightarrow> l1_chain \<Rightarrow> deposit \<Rightarrow> world \<Rightarrow> world" where
  "processFinalizeDeposits_body now chain d w =
     (let (updatedDeposit, w1) = updateLastActivity now d w;
          (st, w2) = checkDepositStatus chain (deposit_id updatedDeposit) w1
      in if st = INITIALIZED then finalizeDeposit now chain updatedDeposit w2
         else if st = FINALIZED
         then updateToFinalizedDeposit now updatedDeposit
                (TxString ''Deposit already finalized'') None w2
         else w2)"

fun processFinalizeDeposits_loop ::
  "int \<Rightarrow> l1_chain \<Rightarrow> deposit list \<Rightarrow> world \<Rightarrow> world" where
  "processFinalizeDeposits_loop now chain [] w = w"
| "processFinalizeDeposits_loop now chain (d # ds) w =
     processFinalizeDeposits_loop now chain ds (processFinalizeDeposits_body now chain d w)"

definition processFinalizeDeposits_listed ::
  "int \<Rightarrow> l1_chain \<Rightarrow> deposit list \<Rightarrow> world \<Rightarrow> world" where
  "processFinalizeDeposits_listed now chain initializedDeposits w =
     (if initializedDeposits = [] then w
      else
        let filteredDeposits = filterDepositsActivityTime now initializedDeposits in
        if filteredDeposits = [] then w
        else processFinalizeDeposits_loop now chain filteredDeposits w)"

definition processFinalizeDeposits :: "int \<Rightarrow> l1_chain \<Rightarrow> world \<Rightarrow> world" where
  "processFinalizeDeposits now chain w =
     (let initializedDeposits = getAllJsonOperationsByStatus (StatusName ''INITIALIZED'') w
      in processFinalizeDeposits_listed now chain initializedDeposits w)"

text \<open>
  The two event callbacks of \<open>setupListeners\<close>. Each catches and logs whatever is thrown
  inside it, so it returns the world as the statements before the throw left it.
\<close>

definition on_DepositInitialized ::
  "externals \<Rightarrow> int \<Rightarrow> l1_chain \<Rightarrow> funding_tx \<Rightarrow> reveal_tuple \<Rightarrow> string \<Rightarrow> string \<Rightarrow> world
     \<Rightarrow> world" where
  "on_DepositInitialized ext now chain ftx rv l2Owner sender w =
     (case createDeposit ext now ftx rv l2Owner sender of
        Inl e \<Rightarrow> w
      | Inr d \<Rightarrow>
          (case writeNewJsonDeposit ext now ftx rv l2Owner sender w of
             Inl e \<Rightarrow> w
           | Inr w1 \<Rightarrow> initializeDeposit now chain d w1))"

definition on_OptimisticMintingFinalized :: "int \<Rightarrow> l1_chain \<Rightarrow> nat \<Rightarrow> world \<Rightarrow> world" where
  "on_OptimisticMintingFinalized now chain depositKey w =
     (case getJsonById (BigNumber_toString depositKey) w of
        None \<Rightarrow> w
      | Some d \<Rightarrow> finalizeDeposit now chain d w)"

section \<open>Historical backfill\<close>

text \<open>
  \<open>getBlocksByTimestamp\<close> (utils/Deposits.ts). \<open>getBlock\<close> is the L2 provider: it resolves
  with the block's timestamp, or with \<open>null\<close> (\<open>None\<close>), or rejects. The \<open>while\<close> loop is
  \<open>search_blocks\<close>; it ends by leaving the loop (\<open>Left\<close>) or by a rejected fetch (\<open>Threw\<close>),
  with the value \<open>startBlock\<close> has at that moment. Block numbers and timestamps are
  integers, as JavaScript's numbers are below \<open>2 ^ 53\<close>.
\<close>

datatype loop_end = Left int | Threw int

function search_blocks ::
  "(int \<Rightarrow> int option outcome) \<Rightarrow> int \<Rightarrow> int \<Rightarrow> int \<Rightarrow> int \<Rightarrow> loop_end" where
  "search_blocks getBlock timestamp low high start =
     (if low \<le> high then
        (let mid = (low + high) div 2 in
         case getBlock mid of
           Rejects r \<Rightarrow> Threw start
         | Resolves None \<Rightarrow> search_blocks getBlock timestamp low (mid - 1) start
         | Resolves (Some t) \<Rightarrow>
             if t = timestamp then Left mid
             else if t < timestamp then search_blocks getBlock timestamp (mid + 1) high mid
             else search_blocks getBlock timestamp low (mid - 1) start)
      else Left start)"
  by pat_completeness auto
termination
  by (relation "measure (\<lambda>(getBlock, timestamp, low, high, start). nat (high - low + 1))") auto

declare search_blocks.simps [simp del]

record block_range =
  startBlock :: int
  endBlock :: int

definition getBlocksByTimestamp ::
  "int \<Rightarrow> (int \<Rightarrow> int option outcome) \<Rightarrow> int \<Rightarrow> int \<Rightarrow> block_range" where
  "getBlocksByTimestamp START_BLOCK getBlock timestamp latestBlock =
     (case search_blocks getBlock timestamp START_BLOCK latestBlock (- 1) of
        Left start \<Rightarrow>
          \<lparr>startBlock = (if start = - 1 then START_BLOCK else start), endBlock = latestBlock\<rparr>
      | Threw start \<Rightarrow> \<lparr>startBlock = start, endBlock = latestBlock\<rparr>)"

text \<open>
  \<open>checkForPastDeposits\<close> of the EVM handler. The L2 side is the provider's \<open>getBlock\<close> and
  the \<open>queryFilter\<close> of the L2 contract, if one is configured. An event is its arguments.
  The stored record is looked up under \<open>fundingTx.transactionHash\<close>; the file name of an
  undefined key is \<open>undefined.json\<close>. A throw inside the loop ends the scan.
\<close>

record l2_chain =
  getBlock :: "int \<Rightarrow> int option outcome"
  l2BitcoinDepositor :: "(int \<Rightarrow> int \<Rightarrow> l1_output_event list outcome) option"

definition key_of :: "string option \<Rightarrow> string" where
  "key_of k = (case k of None \<Rightarrow> ''undefined'' | Some s \<Rightarrow> s)"

fun checkForPastDeposits_loop ::
  "externals \<Rightarrow> int \<Rightarrow> l1_chain \<Rightarrow> l1_output_event list \<Rightarrow> world \<Rightarrow> world" where
  "checkForPastDeposits_loop ext now chain [] w = w"
| "checkForPastDeposits_loop ext now chain (event # events) w =
     (case getJsonById (key_of (transactionHash (fundingTx event))) w of
        Some existing \<Rightarrow> checkForPastDeposits_loop ext now chain events w
      | None \<Rightarrow>
          (case createDeposit ext now (fundingTx event) (reveal event)
                  (l2DepositOwner event) (l2Sender event) of
             Inl e \<Rightarrow> w
           | Inr newDeposit \<Rightarrow>
               (case writeNewJsonDeposit ext now (fundingTx event) (reveal event)
                       (l2DepositOwner event) (l2Sender event) w of
                  Inl e \<Rightarrow> w
                | Inr w1 \<Rightarrow>
                    checkForPastDeposits_loop ext now chain events
                      (initializeDeposit now chain newDeposit w1))))"

definition checkForPastDeposits ::
  "externals \<Rightarrow> int \<Rightarrow> int \<Rightarrow> l1_chain \<Rightarrow> l2_chain \<Rightarrow> int \<Rightarrow> int \<Rightarrow> world \<Rightarrow> world" where
  "checkForPastDeposits ext START_BLOCK now chain l2 pastTimeInMinutes latestBlock w =
     (let currentTime = now div 1000;
          pastTime = currentTime - pastTimeInMinutes * 60;
          range = getBlocksByTimestamp START_BLOCK (getBlock l2) pastTime latestBlock
      in case l2BitcoinDepositor l2 of
           None \<Rightarrow> w
         | Some queryFilter \<Rightarrow>
             (case queryFilter (startBlock range) (endBlock range) of
                Rejects r \<Rightarrow> w
              | Resolves events \<Rightarrow>
                  if events \<noteq> [] then checkForPastDeposits_loop ext now chain events w else w))"

text \<open>
  The stand-alone scan (the service that precedes the handler) looks the record up under
  the derived id. Its \<open>attemptToInitializeDeposit\<close> is not among the sources and is
  handed in.
\<close>

fun service_checkForPastDeposits_loop ::
  "externals \<Rightarrow> int \<Rightarrow> (deposit \<Rightarrow> world \<Rightarrow> world) \<Rightarrow> l1_output_event list \<Rightarrow> world \<Rightarrow> world" where
  "service_checkForPastDeposits_loop ext now attemptToInitializeDeposit [] w = w"
| "service_checkForPastDeposits_loop ext now attemptToInitializeDeposit (event # events) w =
     (case getDepositId (keccak ext) (getFundingTxHash ext (fundingTx event))
             (reveal0 (reveal event)) of
        Inl e \<Rightarrow> w
      | Inr depositId \<Rightarrow>
          (case getJsonById depositId w of
             Some existingDeposit \<Rightarrow>
               service_checkForPastDeposits_loop ext now attemptToInitializeDeposit events w
           | None \<Rightarrow>
               (case createDeposit ext now (fundingTx event) (reveal event)
                       (l2DepositOwner event) (l2Sender event) of
                  Inl e \<Rightarrow> w
                | Inr newDeposit \<Rightarrow>
                    (case writeNewJsonDeposit ext now (fundingTx event) (reveal event)
                            (l2DepositOwner event) (l2Sender event) w of
                       Inl e \<Rightarrow> w
                     | Inr w1 \<Rightarrow>
                         service_checkForPastDeposits_loop ext now attemptToInitializeDeposit
                           events (attemptToInitializeDeposit newDeposit w1)))))"

section \<open>Vocabulary of the properties\<close>

text \<open>
  The invariant that ties the two transaction hashes to the status.
\<close>

definition hash_status_invariant :: "deposit \<Rightarrow> bool" where
  "hash_status_invariant d \<longleftrightarrow>
     (finalizeTxHash (eth (hashes d)) \<noteq> None \<longrightarrow> status d = FINALIZED) \<and>
     (initializeTxHash (eth (hashes d)) \<noteq> None \<longrightarrow> INITIALIZED \<le> status d)"

text \<open>
  The error that the \<open>try\<close> block of \<open>initializeDeposit\<close> (of \<open>finalizeDeposit\<close>) throws on a
  chain, if it throws: the first awaited call that rejects.
\<close>

definition initialize_rejection :: "l1_chain \<Rightarrow> deposit \<Rightarrow> string option option" where
  "initialize_rejection chain d =
     (case callStatic_initializeDeposit chain (L1OutputEvent d) of
        Rejects r \<Rightarrow> Some r
      | Resolves u \<Rightarrow>
          (case getTransactionCount chain of
             Rejects r \<Rightarrow> Some r
           | Resolves currentNonce \<Rightarrow>
               (case send_initializeDeposit chain (L1OutputEvent d) currentNonce of
                  Rejects r \<Rightarrow> Some r
                | Resolves h \<Rightarrow>
                    (case tx_wait chain h of Rejects r \<Rightarrow> Some r | Resolves u' \<Rightarrow> None))))"


text \<open>
  Runs. \<open>effect_id\<close> is the deposit id (the file key) an effect is about;
  \<open>new_effects w w'\<close> is what a run from \<open>w\<close> to \<open>w'\<close> added to the trace. A store is well
  formed when every file holds the record of the id it is named after, which is how
  every write of the handler names its file. \<open>only_touches k\<close> relates two worlds when
  every other key holds what it held and every new effect is about \<open>k\<close>; \<open>untouched k\<close>
  when \<open>k\<close> holds what it held and no new effect is about \<open>k\<close>. \<open>sends_nothing_for k\<close>
  holds of every effect but a pre-flight call or a transaction for \<open>k\<close>.
\<close>

fun effect_id :: "effect \<Rightarrow> string" where
  "effect_id (Wrote k) = k"
| "effect_id (ReadDeposits k) = k"
| "effect_id (CallStaticInitialize k) = k"
| "effect_id (SendInitialize k) = k"
| "effect_id (CallStaticFinalize k) = k"
| "effect_id (SendFinalize k) = k"

definition new_effects :: "world \<Rightarrow> world \<Rightarrow> effect list" where
  "new_effects w w' = drop (length (trace w)) (trace w')"

definition well_formed :: "world \<Rightarrow> bool" where
  "well_formed w \<longleftrightarrow>
     distinct (map fst (store w)) \<and> list_all (\<lambda>(k, d). deposit_id d = k) (store w)"

definition only_touches :: "string \<Rightarrow> world \<Rightarrow> world \<Rightarrow> bool" where
  "only_touches k w w' \<longleftrightarrow>
     (\<forall>k'. k' \<noteq> k \<longrightarrow> getJsonById k' w' = getJsonById k' w) \<and>
     (\<exists>es. trace w' = trace w @ es \<and> (\<forall>e \<in> set es. effect_id e = k))"

definition untouched :: "string \<Rightarrow> world \<Rightarrow> world \<Rightarrow> bool" where
  "untouched k w w' \<longleftrightarrow>
     getJsonById k w' = getJsonById k w \<and>
     (\<exists>es. trace w' = trace w @ es \<and> (\<forall>e \<in> set es. effect_id e \<noteq> k))"

definition sends_nothing_for :: "string \<Rightarrow> effect \<Rightarrow> bool" where
  "sends_nothing_for k e \<longleftrightarrow>
     e \<notin> {CallStaticInitialize k, SendInitialize k, CallStaticFinalize k, SendFinalize k}"

text \<open>
  The value of \<open>startBlock\<close> when the search loop ends, either way.
\<close>

fun loop_value :: "loop_end \<Rightarrow> int" where
  "loop_value (Left s) = s"
| "loop_value (Threw s) = s"

section \<open>Sample data\<close>

text \<open>
  Concrete inputs on which the theorems below are instantiated. Two functions stand in
  for Keccak-256 there, both with 32 bytes of output: \<open>sample_digest\<close> ends with the
  length of its input, so that the id of the sample event is 36; \<open>tail_digest\<close> ends with
  the last five bytes of its input, which for the 36 packed bytes are the last byte of the
  funding hash and the four bytes of the output index.
\<close>

definition sample_digest :: "byte list \<Rightarrow> byte list" where
  "sample_digest bs = replicate 31 0 @ [of_nat (length bs)]"

definition tail_digest :: "byte list \<Rightarrow> byte list" where
  "tail_digest bs = replicate 27 0 @ drop 31 bs"

definition sample_hash :: string where
  "sample_hash = replicate 64 (CHR ''1'')"

definition sample_externals :: externals where
  "sample_externals =
     \<lparr>keccak = sample_digest, getFundingTxHash = (\<lambda>ftx. sample_hash),
      getTransactionHash = (\<lambda>ftx. ''btc'')\<rparr>"

definition sample_event :: l1_output_event where
  "sample_event =
     \<lparr>fundingTx = \<lparr>version = ''0x01000000'', inputVector = ''0x01aa'', outputVector = ''0x01bb'',
                    locktime = ''0x00000000'', transactionHash = None\<rparr>,
      reveal = \<lparr>reveal0 = 0, reveal1 = ''0xf9f0c90d00039523'', reveal2 = ''0x8db50eb52063ea9d'',
                 reveal3 = ''0x28e081f461818cfe'', reveal4 = ''0x60bcea61'', reveal5 = ''0x00''\<rparr>,
      l2DepositOwner = ''0xowner'', l2Sender = ''0xsender''\<rparr>"

definition sample_deposit :: deposit where
  "sample_deposit =
     \<lparr>deposit_id = ''36'', fundingTxHash = sample_hash, outputIndex = 0,
      hashes = \<lparr>btc = \<lparr>btcTxHash = ''btc''\<rparr>,
                eth = \<lparr>initializeTxHash = None, finalizeTxHash = None\<rparr>\<rparr>,
      receipt = \<lparr>depositor = ''0xsender'', blindingFactor = ''0xf9f0c90d00039523'',
                 walletPublicKeyHash = ''0x8db50eb52063ea9d'',
                 refundPublicKeyHash = ''0x28e081f461818cfe'',
                 refundLocktime = ''0x60bcea61'', extraData = ''0x00''\<rparr>,
      L1OutputEvent = sample_event, owner = ''0xowner'', status = QUEUED,
      dates = \<lparr>createdAt = Some 1000, initializationAt = None, finalizationAt = None,
               lastActivityAt = 1000\<rparr>,
      error = None\<rparr>"

text \<open>
  The sample record after its first and after its second phase, and a second QUEUED
  record, active 50 seconds before the clock reading 400000 used below.
\<close>

definition initialized_sample :: deposit where
  "initialized_sample =
     sample_deposit\<lparr>status := INITIALIZED,
       hashes := \<lparr>btc = \<lparr>btcTxHash = ''btc''\<rparr>,
                  eth = \<lparr>initializeTxHash = Some ''0xa1'', finalizeTxHash = None\<rparr>\<rparr>,
       dates := \<lparr>createdAt = Some 1000, initializationAt = Some 1500,
                 finalizationAt = None, lastActivityAt = 1500\<rparr>\<rparr>"

definition finalized_sample :: deposit where
  "finalized_sample =
     sample_deposit\<lparr>status := FINALIZED,
       hashes := \<lparr>btc = \<lparr>btcTxHash = ''btc''\<rparr>,
                  eth = \<lparr>initializeTxHash = Some ''0xa1'', finalizeTxHash = Some ''0xf1''\<rparr>\<rparr>,
       dates := \<lparr>createdAt = Some 1000, initializationAt = Some 1500,
                 finalizationAt = Some 1800, lastActivityAt = 1800\<rparr>\<rparr>"

definition recent_deposit :: deposit where
  "recent_deposit =
     sample_deposit\<lparr>deposit_id := ''37'',
       dates := \<lparr>createdAt = Some 350000, initializationAt = None, finalizationAt = None,
                 lastActivityAt = 350000\<rparr>\<rparr>"

text \<open>
  Stores, with nothing done yet.
\<close>

definition empty_world :: world where
  "empty_world = \<lparr>store = [], trace = []\<rparr>"

definition sample_world :: world where
  "sample_world = \<lparr>store = [(''36'', sample_deposit), (''37'', recent_deposit)], trace = []\<rparr>"

definition initialized_world :: world where
  "initialized_world = \<lparr>store = [(''36'', initialized_sample)], trace = []\<rparr>"

definition finalized_world :: world where
  "finalized_world = \<lparr>store = [(''36'', finalized_sample)], trace = []\<rparr>"

text \<open>
  An L1 chain that answers the two pre-flight calls and the status read as given and
  accepts every transaction, and an L2 chain with one historical event, the one the
  sample record was made from.
\<close>

definition sample_chain :: "unit outcome \<Rightarrow> int outcome \<Rightarrow> nat outcome \<Rightarrow> l1_chain" where
  "sample_chain pre_initialize pre_finalize on_chain_status =
     \<lparr>callStatic_initializeDeposit = (\<lambda>e. pre_initialize),
      getTransactionCount = Resolves 7,
      send_initializeDeposit = (\<lambda>e n. Resolves ''0xa1''),
      tx_wait = (\<lambda>h. Resolves ()),
      callStatic_finalizeDeposit = (\<lambda>k. pre_finalize),
      send_finalizeDeposit = (\<lambda>k v n. Resolves ''0xf1''),
      deposits = (\<lambda>k. on_chain_status)\<rparr>"

definition sample_l2 :: l2_chain where
  "sample_l2 =
     \<lparr>getBlock = (\<lambda>n. Resolves (Some (12 * n))),
      l2BitcoinDepositor = Some (\<lambda>fromBlock toBlock. Resolves [sample_event])\<rparr>"

section \<open>Properties\<close>

subsection \<open>Hex strings and bytes\<close>

text \<open>The two readings of a hex character agree on the hex characters.\<close>

lemma hexval_table:
  "hexval CHR ''0'' = 0" "hexval CHR ''1'' = 1" "hexval CHR ''2'' = 2" "hexval CHR ''3'' = 3"
  "hexval CHR ''4'' = 4" "hexval CHR ''5'' = 5" "hexval CHR ''6'' = 6" "hexval CHR ''7'' = 7"
  "hexval CHR ''8'' = 8" "hexval CHR ''9'' = 9" "hexval CHR ''a'' = 10" "hexval CHR ''b'' = 11"
  "hexval CHR ''c'' = 12" "hexval CHR ''d'' = 13" "hexval CHR ''e'' = 14" "hexval CHR ''f'' = 15"
  "hexval CHR ''A'' = 10" "hexval CHR ''B'' = 11" "hexval CHR ''C'' = 12" "hexval CHR ''D'' = 13"
  "hexval CHR ''E'' = 14" "hexval CHR ''F'' = 15"
  by (simp_all add: hexval_def upt_conv_Cons)

lemma hex_digit_value_table:
  "hex_digit_value CHR ''0'' = Some 0" "hex_digit_value CHR ''1'' = Some 1"
  "hex_digit_value CHR ''2'' = Some 2" "hex_digit_value CHR ''3'' = Some 3"
  "hex_digit_value CHR ''4'' = Some 4" "hex_digit_value CHR ''5'' = Some 5"
  "hex_digit_value CHR ''6'' = Some 6" "hex_digit_value CHR ''7'' = Some 7"
  "hex_digit_value CHR ''8'' = Some 8" "hex_digit_value CHR ''9'' = Some 9"
  "hex_digit_value CHR ''a'' = Some 10" "hex_digit_value CHR ''b'' = Some 11"
  "hex_digit_value CHR ''c'' = Some 12" "hex_digit_value CHR ''d'' = Some 13"
  "hex_digit_value CHR ''e'' = Some 14" "hex_digit_value CHR ''f'' = Some 15"
  "hex_digit_value CHR ''A'' = Some 10" "hex_digit_value CHR ''B'' = Some 11"
  "hex_digit_value CHR ''C'' = Some 12" "hex_digit_value CHR ''D'' = Some 13"
  "hex_digit_value CHR ''E'' = Some 14" "hex_digit_value CHR ''F'' = Some 15"
  by (simp_all add: hex_digit_value_def)

lemma hex_digit_value_hexval:
  assumes "is_hex_char c"
  shows "hex_digit_value c = Some (hexval c)"
proof -
  have "list_all (\<lambda>c. hex_digit_value c = Some (hexval c)) ''0123456789abcdefABCDEF''"
    by (simp add: hex_digit_value_table hexval_table)
  with assms show ?thesis
    unfolding is_hex_char_def list_all_iff by blast
qed

text \<open>The bytes \<open>solidityPack\<close> appends for the index are its big-endian encoding.\<close>

lemma byte_of_nat_mod: "(of_nat (n mod 256) :: byte) = of_nat n"
  by (simp add: word_of_nat_eq_iff take_bit_eq_mod)

lemma be_bytes_4:
  "be_bytes 4 n =
     [of_nat (n div 256 div 256 div 256 mod 256), of_nat (n div 256 div 256 mod 256),
      of_nat (n div 256 mod 256), of_nat (n mod 256)]"
proof -
  have "be_bytes 4 n = be_bytes (Suc (Suc (Suc (Suc 0)))) n"
    by (simp only: numeral_eq_Suc pred_numeral_simps BitM.simps Suc_numeral One_nat_def
        numeral_One [symmetric] eval_nat_numeral)
  then show ?thesis by (simp only: be_bytes.simps append_Nil append_Cons)
qed

lemma uint32_be_be_bytes: "uint32_be n = be_bytes 4 n"
proof -
  have a: "n div 2 ^ 24 = n div 256 div 256 div 256"
    by (simp add: div_mult2_eq [symmetric])
  have b: "n div 2 ^ 16 = n div 256 div 256"
    by (simp add: div_mult2_eq [symmetric])
  have c: "n div 2 ^ 8 = n div 256"
    by simp
  show ?thesis
    by (simp only: uint32_be_def a b c be_bytes_4 byte_of_nat_mod)
qed

lemma length_be_bytes: "length (be_bytes k n) = k"
  by (induction k arbitrary: n) simp_all

lemma be_nat_snoc: "be_nat (bs @ [b]) = be_nat bs * 256 + unat b"
  by (simp add: be_nat_def)

lemma be_nat_be_bytes: "be_nat (be_bytes k n) = n mod 256 ^ k"
proof (induction k arbitrary: n)
  case 0
  then show ?case by (simp add: be_nat_def)
next
  case (Suc k)
  have "unat (of_nat (n mod 256) :: byte) = n mod 256"
    by (simp add: unat_of_nat)
  then have "be_nat (be_bytes (Suc k) n) = (n div 256 mod 256 ^ k) * 256 + n mod 256"
    by (simp add: be_nat_snoc Suc.IH)
  also have "\<dots> = n mod 256 ^ Suc k"
    by (simp add: mod_mult2_eq ac_simps)
  finally show ?case .
qed

lemma be_nat_bound: "be_nat bs < 256 ^ length bs"
proof -
  have "foldl (\<lambda>a b. a * 256 + unat b) acc bs < (acc + 1) * 256 ^ length bs" for acc
  proof (induction bs arbitrary: acc)
    case Nil
    then show ?case by simp
  next
    case (Cons b bs)
    have "unat b < 256" using unsigned_less [of b] by simp
    then have "acc * 256 + unat b + 1 \<le> (acc + 1) * 256" by simp
    then have "(acc * 256 + unat b + 1) * 256 ^ length bs \<le> ((acc + 1) * 256) * 256 ^ length bs"
      by (rule mult_le_mono1)
    also have "\<dots> = (acc + 1) * 256 ^ length (b # bs)" by (simp add: algebra_simps)
    finally have step:
      "(acc * 256 + unat b + 1) * 256 ^ length bs \<le> (acc + 1) * 256 ^ length (b # bs)" .
    have "foldl (\<lambda>a b. a * 256 + unat b) (acc * 256 + unat b) bs
            < (acc * 256 + unat b + 1) * 256 ^ length bs"
      by (rule Cons.IH)
    then have "foldl (\<lambda>a b. a * 256 + unat b) (acc * 256 + unat b) bs
            < (acc + 1) * 256 ^ length (b # bs)"
      using step by (rule less_le_trans)
    then show ?case by simp
  qed
  from this [of 0] show ?thesis by (simp add: be_nat_def)
qed

text \<open>
  \<open>BigNumber.toString\<close> prints the decimal representation, and a number has only one.
\<close>

lemma digit_value_table:
  "digit_value CHR ''0'' = 0" "digit_value CHR ''1'' = 1" "digit_value CHR ''2'' = 2"
  "digit_value CHR ''3'' = 3" "digit_value CHR ''4'' = 4" "digit_value CHR ''5'' = 5"
  "digit_value CHR ''6'' = 6" "digit_value CHR ''7'' = 7" "digit_value CHR ''8'' = 8"
  "digit_value CHR ''9'' = 9"
  by (simp_all add: digit_value_def upt_conv_Cons)

lemma digit_of_value:
  assumes "c \<in> set ''0123456789''"
  shows "digit_value c < 10 \<and> ''0123456789'' ! digit_value c = c"
proof -
  have "list_all (\<lambda>c. digit_value c < 10 \<and> ''0123456789'' ! digit_value c = c) ''0123456789''"
    by (simp add: digit_value_table)
  with assms show ?thesis
    unfolding list_all_iff by blast
qed

lemma value_of_digit:
  assumes "d < 10"
  shows "''0123456789'' ! d \<in> set ''0123456789'' \<and> digit_value (''0123456789'' ! d) = d \<and>
         (if d = 0 then ''0123456789'' ! d = CHR ''0'' else ''0123456789'' ! d \<in> set ''123456789'')"
proof -
  have "list_all (\<lambda>d. ''0123456789'' ! d \<in> set ''0123456789'' \<and>
          digit_value (''0123456789'' ! d) = d \<and>
          (if d = 0 then ''0123456789'' ! d = CHR ''0''
           else ''0123456789'' ! d \<in> set ''123456789'')) [0 ..< 10]"
    by (simp add: digit_value_table upt_conv_Cons)
  moreover from assms have "d \<in> set [0 ..< 10]"
    by simp
  ultimately show ?thesis
    unfolding list_all_iff by blast
qed

lemma decimal_value_snoc: "decimal_value (s @ [c]) = decimal_value s * 10 + digit_value c"
  by (simp add: decimal_value_def)

lemma nonzero_digit_is_digit: "c \<in> set ''123456789'' \<Longrightarrow> c \<in> set ''0123456789''"
  by simp

lemma BigNumber_toString_decimal: "is_decimal_of (BigNumber_toString n) n"
proof (induction n rule: BigNumber_toString.induct)
  case (1 n)
  show ?case
  proof (cases "n < 10")
    case True
    then have s: "BigNumber_toString n = [''0123456789'' ! n]"
      by (simp add: BigNumber_toString.simps)
    from value_of_digit [OF True] show ?thesis
      unfolding s is_decimal_of_def
      by (auto simp: decimal_value_def split: if_splits)
  next
    case False
    let ?t = "BigNumber_toString (n div 10)"
    let ?c = "''0123456789'' ! (n mod 10)"
    from False have s: "BigNumber_toString n = ?t @ [?c]"
      by (simp add: BigNumber_toString.simps)
    from False 1 have ih: "is_decimal_of ?t (n div 10)"
      by simp
    have d: "n mod 10 < 10" by simp
    note c = value_of_digit [OF d]
    from ih have t: "?t \<noteq> []" "list_all (\<lambda>c. c \<in> set ''0123456789'') ?t"
        "?t = ''0'' \<or> hd ?t \<in> set ''123456789''" "decimal_value ?t = n div 10"
      by (simp_all add: is_decimal_of_def)
    from False have "n div 10 \<noteq> 0" by simp
    with t(4) have "?t \<noteq> ''0''"
      by (auto simp: decimal_value_def digit_value_table)
    with t(3) have h: "hd ?t \<in> set ''123456789''" by blast
    have v: "decimal_value (?t @ [?c]) = n"
      using c t(4) by (simp add: decimal_value_snoc)
    show ?thesis
      unfolding s is_decimal_of_def
      using t(1,2) h v c by simp
  qed
qed

lemma decimal_unique:
  assumes "is_decimal_of s n"
  shows "BigNumber_toString n = s"
  using assms
proof (induction s arbitrary: n rule: rev_induct)
  case Nil
  then show ?case by (simp add: is_decimal_of_def)
next
  case (snoc c t)
  from snoc.prems have c: "c \<in> set ''0123456789''"
    and ds: "list_all (\<lambda>c. c \<in> set ''0123456789'') t"
    and z: "t @ [c] = ''0'' \<or> hd (t @ [c]) \<in> set ''123456789''"
    and n: "n = decimal_value t * 10 + digit_value c"
    by (simp_all add: is_decimal_of_def decimal_value_snoc)
  note dc = digit_of_value [OF c]
  show ?case
  proof (cases "t = []")
    case True
    with n have "n = digit_value c" by (simp add: decimal_value_def)
    with dc True show ?thesis by (simp add: BigNumber_toString.simps)
  next
    case False
    with z have h: "hd t \<in> set ''123456789''" by auto
    with False ds have "is_decimal_of t (decimal_value t)"
      by (simp add: is_decimal_of_def)
    then have ih: "BigNumber_toString (decimal_value t) = t"
      by (rule snoc.IH)
    have "decimal_value t \<noteq> 0"
    proof
      assume "decimal_value t = 0"
      with ih have "t = ''0''" by (simp add: BigNumber_toString.simps)
      with h show False by simp
    qed
    with n dc have "\<not> n < 10" "n div 10 = decimal_value t" "n mod 10 = digit_value c"
      by simp_all
    with ih dc show ?thesis
      by (simp add: BigNumber_toString.simps [of n])
  qed
qed

text \<open>Bytes written as hex are read back as the same bytes, and as the same number.\<close>

lemma hex_digit_value_hex_digit: "n < 16 \<Longrightarrow> hex_digit_value (hex_digit n) = Some n"
proof -
  assume "n < 16"
  then have "n \<in> {0, 1, 2, 3, 4, 5, 6, 7, 8, 9, 10, 11, 12, 13, 14, 15}"
    by simp arith
  then show ?thesis
    by (auto simp: hex_digit_value_def hex_digit_def)
qed

lemma byte_high_nibble: "unat (b :: byte) div 16 < 16"
proof -
  have "unat b < 256" using unsigned_less [of b] by simp
  then show ?thesis by simp
qed

lemma hex_pairs_step:
  "hex_pairs (byte_hex b @ cs) =
     (case hex_pairs cs of None \<Rightarrow> None | Some bs \<Rightarrow> Some (b # bs))"
  by (simp add: byte_hex_def hex_digit_value_hex_digit byte_high_nibble split: option.split)

lemma hex_pairs_byte_hex: "hex_pairs (concat (map byte_hex bs)) = Some bs"
  by (induction bs) (simp_all add: hex_pairs_step)

lemma arrayify_hexlify: "arrayify (hexlify bs) = Some bs"
  by (simp add: arrayify_def hexlify_def hex_pairs_byte_hex)

lemma hex_nat_step: "hex_nat acc (byte_hex b @ cs) = hex_nat (acc * 256 + unat b) cs"
proof -
  have e: "(acc * 16 + unat b div 16) * 16 + unat b mod 16 = acc * 256 + unat b"
    by simp
  show ?thesis
    by (simp add: byte_hex_def hex_digit_value_hex_digit byte_high_nibble e ac_simps)
qed

lemma hex_nat_byte_hex:
  "hex_nat acc (concat (map byte_hex bs)) = Some (foldl (\<lambda>a b. a * 256 + unat b) acc bs)"
  by (induction bs arbitrary: acc) (simp_all add: hex_nat_step)

lemma BigNumber_from_hexlify: "BigNumber_from (hexlify bs) = Some (be_nat bs)"
  by (simp add: BigNumber_from_def hexlify_def hex_nat_byte_hex be_nat_def)

lemma hex_pairs_bytes_of_hex:
  "list_all is_hex_char cs \<Longrightarrow> even (length cs) \<Longrightarrow>
     hex_pairs cs = Some (bytes_of_hex cs) \<and> 2 * length (bytes_of_hex cs) = length cs"
proof (induction cs rule: hex_pairs.induct)
  case 1
  then show ?case by simp
next
  case (2 c)
  then show ?case by simp
next
  case (3 c1 c2 cs)
  then show ?case by (simp add: hex_digit_value_hexval)
qed

subsection \<open>The store\<close>

lemma getJsonById_writeJson:
  "getJsonById k (writeJson d k' w) = (if k = k' then Some d else getJsonById k w)"
  by (simp add: getJsonById_def writeJson_def emit_def update_conv')

subsection \<open>Deposit ids\<close>

lemma getDepositId_valid:
  assumes "length h = 64" and "list_all is_hex_char h" and "i < 2 ^ 32"
  shows "getDepositId K h i = Inr (BigNumber_toString (spec_deposit_key K h i))"
proof -
  from assms have "even (length h)" by simp
  with assms have p: "hex_pairs h = Some (bytes_of_hex h)" and l: "length (bytes_of_hex h) = 32"
    using hex_pairs_bytes_of_hex [of h] by simp_all
  have arr: "arrayify (CHR ''0'' # CHR ''x'' # h) = Some (bytes_of_hex h)"
    by (simp add: arrayify_def p)
  have pack: "solidityPack_bytes32_uint32 (CHR ''0'' # CHR ''x'' # h) i =
                Inr (hexlify (bytes_of_hex h @ be_bytes 4 i))"
    using assms by (simp add: solidityPack_bytes32_uint32_def arr l uint32_be_be_bytes)
  show ?thesis
    using assms
    by (simp add: getDepositId_def pack keccak256_def arrayify_hexlify BigNumber_from_hexlify
        spec_deposit_key_def)
qed

lemma getDepositId_invalid: "length h \<noteq> 64 \<Longrightarrow> getDepositId K h i = Inl InvalidFundingTxHash"
  by (simp add: getDepositId_def)

lemma is_decimal_of_unique:
  assumes "is_decimal_of s n" and "is_decimal_of t n"
  shows "s = t"
  using assms [THEN decimal_unique] by simp

lemma sample_hash_valid: "length sample_hash = 64 \<and> list_all is_hex_char sample_hash"
  by (simp add: sample_hash_def is_hex_char_def list_all_iff)

lemma be_nat_zeros: "be_nat (replicate n 0 @ bs) = be_nat bs"
  by (induction n) (simp_all add: be_nat_def)

lemma bytes_of_hex_length: "length (bytes_of_hex cs) = length cs div 2"
  by (induction cs rule: bytes_of_hex.induct) simp_all

lemma bytes_of_hex_replicate:
  "bytes_of_hex (replicate (2 * n) c) = replicate n (of_nat (hexval c * 16 + hexval c))"
  by (induction n) simp_all

lemma sample_hash_bytes: "bytes_of_hex sample_hash = replicate 32 17"
  using bytes_of_hex_replicate [of 32 "CHR ''1''"] by (simp add: sample_hash_def hexval_table)

lemma sample_deposit_key: "spec_deposit_key tail_digest sample_hash 258 = 73014444290"
proof -
  have b: "be_bytes 4 258 = [0, 0, 1, 2]"
    by (simp add: be_bytes_4)
  have "tail_digest (bytes_of_hex sample_hash @ be_bytes 4 258) =
          replicate 27 0 @ [17, 0, 0, 1, 2]"
    by (simp add: tail_digest_def sample_hash_bytes b)
  then show ?thesis
    by (simp add: spec_deposit_key_def be_nat_zeros) (simp add: be_nat_def)
qed

lemma sample_decimal: "is_decimal_of ''73014444290'' 73014444290"
  by (simp add: is_decimal_of_def decimal_value_def digit_value_table)

lemma sample_deposit_id: "getDepositId sample_digest sample_hash 0 = Inr ''36''"
proof -
  have l: "length (bytes_of_hex sample_hash @ be_bytes 4 0) = 36"
    by (simp add: bytes_of_hex_length sample_hash_def length_be_bytes)
  have "be_nat (sample_digest (bytes_of_hex sample_hash @ be_bytes 4 0)) = 36"
    unfolding sample_digest_def l be_nat_zeros by (simp add: be_nat_def)
  moreover have "BigNumber_toString 36 = ''36''"
    by (simp add: BigNumber_toString.simps)
  ultimately have "BigNumber_toString (spec_deposit_key sample_digest sample_hash 0) = ''36''"
    by (simp add: spec_deposit_key_def)
  then show ?thesis
    using sample_hash_valid by (simp add: getDepositId_valid)
qed

text \<open>
  C2. For a funding hash of exactly 64 hex characters and an output index below
  \<open>2 ^ 32\<close>, \<open>getDepositId\<close> returns the decimal representation of
  \<open>keccak256(bytes32(fundingTxHash) || uint32_be(outputIndex))\<close> read as an unsigned
  big-endian integer (which is below \<open>2 ^ 256\<close> for a 32-byte digest, by \<open>be_nat_bound\<close>):
  a string of decimal digits without a leading zero whose value is that number, and
  there is only one such string (\<open>is_decimal_of_unique\<close>). As a function of its inputs it
  yields the same id for the same inputs. For a funding hash whose length is not 64 it
  fails with the invalid-funding-hash error.
\<close>

theorem getDepositId_spec:
  "(length h = 64 \<and> list_all is_hex_char h \<and> i < 2 ^ 32 \<longrightarrow>
      (\<exists>s. getDepositId K h i = Inr s \<and> is_decimal_of s (spec_deposit_key K h i))) \<and>
   (length h \<noteq> 64 \<longrightarrow> getDepositId K h i = Inl InvalidFundingTxHash)"
  using getDepositId_valid [of h i K] getDepositId_invalid [of h K i]
    BigNumber_toString_decimal [of "spec_deposit_key K h i"]
  by simp

theorem getDepositId_spec_witness:
  "getDepositId tail_digest sample_hash 258 = Inr ''73014444290'' \<and>
   getDepositId tail_digest ''1111'' 0 = Inl InvalidFundingTxHash"
proof -
  have h: "length sample_hash = 64 \<and> list_all is_hex_char sample_hash \<and> (258::nat) < 2 ^ 32"
    using sample_hash_valid by simp
  have s: "length ''1111'' \<noteq> 64"
    by simp
  from getDepositId_spec [of sample_hash 258 tail_digest] h
  obtain s where "getDepositId tail_digest sample_hash 258 = Inr s"
    and "is_decimal_of s 73014444290"
    by (auto simp: sample_deposit_key)
  moreover from this(2) sample_decimal have "s = ''73014444290''"
    by (rule is_decimal_of_unique)
  moreover from getDepositId_spec [of "''1111''" 0 tail_digest] s
  have "getDepositId tail_digest ''1111'' 0 = Inl InvalidFundingTxHash"
    by simp
  ultimately show ?thesis
    by simp
qed

subsection \<open>Record updates\<close>

text \<open>
  C10. When the \<open>tx\<close> argument is truthy and has no hash (the string
  \<open>"Deposit already finalized"\<close> passed where a transaction is expected),
  \<open>updateToFinalizedDeposit(d, tx)\<close> persists \<open>d\<close> with status FINALIZED, a null
  \<open>finalizeTxHash\<close>, \<open>finalizationAt\<close> and \<open>lastActivityAt\<close> set to now and a null error,
  and \<open>updateToInitializedDeposit(d, tx)\<close> does the same for INITIALIZED. So the
  store can hold a FINALIZED record whose \<open>finalizeTxHash\<close> is null.
\<close>

theorem update_with_hashless_tx:
  assumes "truthy tx" and "tx_hash tx = None"
  shows "getJsonById (deposit_id d) (updateToFinalizedDeposit now d tx None w) =
           Some (d\<lparr>status := FINALIZED,
                   dates := (dates d)\<lparr>finalizationAt := Some now, lastActivityAt := now\<rparr>,
                   hashes := (hashes d)\<lparr>eth := (eth (hashes d))\<lparr>finalizeTxHash := None\<rparr>\<rparr>,
                   error := None\<rparr>) \<and>
         map_option (\<lambda>r. (status r, finalizeTxHash (eth (hashes r))))
           (getJsonById (deposit_id d) (updateToFinalizedDeposit now d tx None w)) =
           Some (FINALIZED, None) \<and>
         getJsonById (deposit_id d) (updateToInitializedDeposit now d tx None w) =
           Some (d\<lparr>status := INITIALIZED,
                   dates := (dates d)\<lparr>initializationAt := Some now, lastActivityAt := now\<rparr>,
                   hashes := (hashes d)\<lparr>eth := (eth (hashes d))\<lparr>initializeTxHash := None\<rparr>\<rparr>,
                   error := None\<rparr>)"
  using assms
  by (simp add: updateToFinalizedDeposit_def updateToInitializedDeposit_def
      getJsonById_writeJson)

theorem update_with_hashless_tx_witness:
  "map_option (\<lambda>r. (status r, finalizeTxHash (eth (hashes r)), error r))
     (getJsonById ''36''
        (updateToFinalizedDeposit 2000 sample_deposit (TxString ''Deposit already finalized'')
           None empty_world)) =
     Some (FINALIZED, None, None)"
proof -
  have t: "truthy (TxString ''Deposit already finalized'')"
    by simp
  have h: "tx_hash (TxString ''Deposit already finalized'') = None"
    by simp
  have i: "deposit_id sample_deposit = ''36''"
    by (simp add: sample_deposit_def)
  show ?thesis
    using update_with_hashless_tx [OF t h, of sample_deposit 2000 empty_world]
    by (simp add: i)
qed

subsection \<open>The hash and status invariant\<close>

text \<open>
  C3, as stated: every record-update operation keeps the invariant
  "\<open>finalizeTxHash\<close> set implies FINALIZED, \<open>initializeTxHash\<close> set implies at least
  INITIALIZED". It fails: \<open>updateDepositHashes\<close> stores whatever status the caller passes
  next to the hash, and \<open>updateToInitializedDeposit\<close> with a transaction sets a
  FINALIZED record, whose \<open>finalizeTxHash\<close> stays, back to INITIALIZED.
\<close>

theorem hash_status_invariant_counterexample:
  "hash_status_invariant sample_deposit \<and>
   \<not> hash_status_invariant (updateDepositHashes 2000 sample_deposit QUEUED ''0xa1'' Initialize) \<and>
   hash_status_invariant finalized_sample \<and>
   map_option hash_status_invariant
     (getJsonById ''36''
        (updateToInitializedDeposit 2000 finalized_sample (TxObject (Some ''0xa2'')) None
           empty_world)) = Some False"
  by (simp add: hash_status_invariant_def sample_deposit_def finalized_sample_def
      updateDepositHashes_def updateToInitializedDeposit_def getJsonById_writeJson
      QUEUED_def INITIALIZED_def FINALIZED_def)

lemma createDeposit_invariant:
  "createDeposit ext now ftx rv l2Owner sender = Inr d \<Longrightarrow> hash_status_invariant d"
  by (auto simp: createDeposit_def hash_status_invariant_def Let_def split: sum.splits)

text \<open>
  C3, amended. From a record that satisfies the invariant, \<open>createDeposit\<close>,
  \<open>updateLastActivity\<close> and \<open>updateToFinalizedDeposit\<close> always produce one that satisfies
  it; \<open>updateToInitializedDeposit\<close> does when \<open>tx\<close> is falsy or the record has no
  \<open>finalizeTxHash\<close>; \<open>updateDepositHashes\<close> does when the status passed fits the
  transaction type: FINALIZED with \<open>finalize\<close>; with \<open>initialize\<close> at least INITIALIZED,
  and FINALIZED if the record has a \<open>finalizeTxHash\<close>.
\<close>

theorem hash_status_invariant_preserved:
  assumes "hash_status_invariant d"
  shows "map_option hash_status_invariant
           (getJsonById (deposit_id d) (updateToFinalizedDeposit now d tx err w)) = Some True \<and>
         hash_status_invariant (fst (updateLastActivity now d w)) \<and>
         map_option hash_status_invariant
           (getJsonById (deposit_id d) (snd (updateLastActivity now d w))) = Some True \<and>
         (\<not> truthy tx \<or> finalizeTxHash (eth (hashes d)) = None \<longrightarrow>
            map_option hash_status_invariant
              (getJsonById (deposit_id d) (updateToInitializedDeposit now d tx err w)) =
              Some True) \<and>
         (newStatus = FINALIZED \<longrightarrow>
            hash_status_invariant (updateDepositHashes now d newStatus txHash Finalize)) \<and>
         (INITIALIZED \<le> newStatus \<and>
            (finalizeTxHash (eth (hashes d)) = None \<or> newStatus = FINALIZED) \<longrightarrow>
            hash_status_invariant (updateDepositHashes now d newStatus txHash Initialize)) \<and>
         (createDeposit ext now ftx rv l2Owner sender = Inr d' \<longrightarrow> hash_status_invariant d')"
  using assms createDeposit_invariant [of ext now ftx rv l2Owner sender d']
  by (auto simp: hash_status_invariant_def updateToFinalizedDeposit_def
      updateToInitializedDeposit_def updateLastActivity_def updateDepositHashes_def
      getJsonById_writeJson INITIALIZED_def FINALIZED_def Let_def)

theorem hash_status_invariant_preserved_witness:
  "hash_status_invariant sample_deposit \<and>
   map_option hash_status_invariant
     (getJsonById ''36''
        (updateToFinalizedDeposit 2000 sample_deposit (TxObject (Some ''0xf1'')) None
           empty_world)) = Some True \<and>
   map_option hash_status_invariant
     (getJsonById ''36''
        (updateToInitializedDeposit 2000 sample_deposit (TxObject (Some ''0xa1'')) None
           empty_world)) = Some True \<and>
   hash_status_invariant (updateDepositHashes 2000 sample_deposit FINALIZED ''0xf1'' Finalize) \<and>
   hash_status_invariant
     (updateDepositHashes 2000 sample_deposit INITIALIZED ''0xa1'' Initialize)"
proof -
  have i: "hash_status_invariant sample_deposit"
    by (simp add: hash_status_invariant_def sample_deposit_def)
  have n: "finalizeTxHash (eth (hashes sample_deposit)) = None"
    by (simp add: sample_deposit_def)
  have k: "deposit_id sample_deposit = ''36''"
    by (simp add: sample_deposit_def)
  show ?thesis
    using i n
      hash_status_invariant_preserved [OF i, where now = 2000 and tx = "TxObject (Some ''0xf1'')"
        and err = None and w = empty_world and newStatus = FINALIZED and txHash = "''0xf1''"]
      hash_status_invariant_preserved [OF i, where now = 2000 and tx = "TxObject (Some ''0xa1'')"
        and err = None and w = empty_world and newStatus = INITIALIZED and txHash = "''0xa1''"]
    by (simp add: k)
qed

subsection \<open>Failed attempts\<close>

lemma reason_of_nonempty [simp]: "reason_of r \<noteq> []"
  by (cases r) auto

lemma trace_writeJson [simp]: "trace (writeJson d k w) = trace w @ [Wrote k]"
  by (simp add: writeJson_def emit_def)

lemma trace_emit [simp]: "trace (emit e w) = trace w @ [e]"
  by (simp add: emit_def)

lemma getJsonById_emit [simp]: "getJsonById k (emit e w) = getJsonById k w"
  by (simp add: getJsonById_def emit_def)

lemma initializeDeposit_rejected:
  assumes "initialize_rejection chain d = Some r"
  shows "getJsonById (deposit_id d) (initializeDeposit now chain d w) =
           Some (d\<lparr>dates := (dates d)\<lparr>lastActivityAt := now\<rparr>, error := Some (reason_of r)\<rparr>)"
  using assms
  by (auto simp: initialize_rejection_def initializeDeposit_def updateToInitializedDeposit_def
      getJsonById_writeJson Let_def split: outcome.splits)






subsection \<open>The reconciler passes\<close>

text \<open>
  Asked for the name of a status, the store lists nothing, since every stored status is
  a number; so each pass returns at its first test and leaves the world as it is. Asked
  for a number, the store lists the records of that status.
\<close>

lemma store_lists_status:
  "d \<in> set (getAllJsonOperationsByStatus (StatusNumber n) w) \<longleftrightarrow>
     d \<in> set (getAllJsonOperations w) \<and> status d = n"
  by (auto simp: getAllJsonOperationsByStatus_def)

lemma store_lists_no_name: "getAllJsonOperationsByStatus (StatusName s) w = []"
  by (simp add: getAllJsonOperationsByStatus_def)

lemma processInitializeDeposits_lists_nothing: "processInitializeDeposits now chain w = w"
  by (simp add: processInitializeDeposits_def store_lists_no_name
      processInitializeDeposits_listed_def)

lemma processFinalizeDeposits_lists_nothing: "processFinalizeDeposits now chain w = w"
  by (simp add: processFinalizeDeposits_def store_lists_no_name
      processFinalizeDeposits_listed_def)

text \<open>
  The rest of the subsection is about the passes from the listing on, for whatever the
  store lists.
\<close>

lemma only_touches_refl: "only_touches k w w"
  by (simp add: only_touches_def)

lemma only_touches_emit:
  "effect_id e = k \<Longrightarrow> only_touches k w w0 \<Longrightarrow> only_touches k w (emit e w0)"
  by (auto simp: only_touches_def)

lemma only_touches_writeJson:
  "only_touches k w w0 \<Longrightarrow> only_touches k w (writeJson d k w0)"
  by (auto simp: only_touches_def getJsonById_writeJson)

lemma only_touches_updateToInitializedDeposit:
  "deposit_id d = k \<Longrightarrow> only_touches k w w0 \<Longrightarrow>
     only_touches k w (updateToInitializedDeposit now d tx err w0)"
  by (simp add: updateToInitializedDeposit_def Let_def only_touches_writeJson)

lemma only_touches_updateToFinalizedDeposit:
  "deposit_id d = k \<Longrightarrow> only_touches k w w0 \<Longrightarrow>
     only_touches k w (updateToFinalizedDeposit now d tx err w0)"
  by (simp add: updateToFinalizedDeposit_def Let_def only_touches_writeJson)

lemma only_touches_initializeDeposit:
  "deposit_id d = k \<Longrightarrow> only_touches k w w0 \<Longrightarrow>
     only_touches k w (initializeDeposit now chain d w0)"
  by (simp add: initializeDeposit_def Let_def only_touches_emit
      only_touches_updateToInitializedDeposit split: outcome.splits)

lemma only_touches_finalizeDeposit:
  "deposit_id d = k \<Longrightarrow> only_touches k w w0 \<Longrightarrow>
     only_touches k w (finalizeDeposit now chain d w0)"
  by (simp add: finalizeDeposit_def Let_def only_touches_emit
      only_touches_updateToFinalizedDeposit split: outcome.splits)

lemma only_touches_processInitializeDeposits_body:
  "only_touches (deposit_id d) w (processInitializeDeposits_body now chain d w)"
  by (simp add: processInitializeDeposits_body_def updateLastActivity_def checkDepositStatus_def
      Let_def only_touches_emit only_touches_writeJson only_touches_refl
      only_touches_updateToInitializedDeposit only_touches_updateToFinalizedDeposit
      only_touches_initializeDeposit split: outcome.splits)

lemma only_touches_processFinalizeDeposits_body:
  "only_touches (deposit_id d) w (processFinalizeDeposits_body now chain d w)"
  by (simp add: processFinalizeDeposits_body_def updateLastActivity_def checkDepositStatus_def
      Let_def only_touches_emit only_touches_writeJson only_touches_refl
      only_touches_updateToFinalizedDeposit only_touches_finalizeDeposit split: outcome.splits)

lemma untouched_refl: "untouched k w w"
  by (simp add: untouched_def)

lemma untouched_trans: "untouched k w w1 \<Longrightarrow> untouched k w1 w2 \<Longrightarrow> untouched k w w2"
  by (auto simp: untouched_def)

lemma only_touches_untouched: "only_touches k' w w' \<Longrightarrow> k \<noteq> k' \<Longrightarrow> untouched k w w'"
  by (auto simp: only_touches_def untouched_def)

lemma untouched_new_effects:
  "untouched k w w' \<Longrightarrow> list_all (\<lambda>e. effect_id e \<noteq> k) (new_effects w w')"
  by (auto simp: untouched_def new_effects_def list_all_iff)

lemma processInitializeDeposits_loop_fold:
  "processInitializeDeposits_loop now chain ds w =
     fold (processInitializeDeposits_body now chain) ds w"
  by (induction ds arbitrary: w) simp_all

lemma processFinalizeDeposits_loop_fold:
  "processFinalizeDeposits_loop now chain ds w =
     fold (processFinalizeDeposits_body now chain) ds w"
  by (induction ds arbitrary: w) simp_all

lemma fold_untouched:
  assumes "\<And>d w. only_touches (deposit_id d) w (body d w)"
    and "k \<notin> deposit_id ` set ds"
  shows "untouched k w (fold body ds w)"
  using assms(2)
proof (induction ds arbitrary: w)
  case Nil
  then show ?case by (simp add: untouched_refl)
next
  case (Cons d ds)
  then have "untouched k w (body d w)"
    using assms(1) [of d w] by (auto intro: only_touches_untouched)
  moreover have "untouched k (body d w) (fold body ds (body d w))"
    using Cons by simp
  ultimately show ?case
    by (auto intro: untouched_trans)
qed

lemma fold_record:
  assumes frame: "\<And>x w. only_touches (deposit_id x) w (body x w)"
    and own: "\<And>w. getJsonById (deposit_id d) (body d w) = Some r"
    and "distinct (map deposit_id ds)" and "d \<in> set ds"
  shows "getJsonById (deposit_id d) (fold body ds w) = Some r"
  using assms(3,4)
proof (induction ds arbitrary: w)
  case Nil
  then show ?case by simp
next
  case (Cons x xs)
  show ?case
  proof (cases "x = d")
    case True
    with Cons.prems have "deposit_id d \<notin> deposit_id ` set xs" by auto
    then have "untouched (deposit_id d) (body d w) (fold body xs (body d w))"
      by (rule fold_untouched [OF frame])
    with True own [of w] show ?thesis by (simp add: untouched_def)
  next
    case False
    with Cons show ?thesis by simp
  qed
qed

lemma fold_effects:
  assumes "\<And>x w. x \<in> set ds \<Longrightarrow> \<exists>es. trace (body x w) = trace w @ es \<and> list_all P es"
  shows "\<exists>es. trace (fold body ds w) = trace w @ es \<and> list_all P es"
  using assms
proof (induction ds arbitrary: w)
  case Nil
  then show ?case by simp
next
  case (Cons x xs)
  from Cons.prems [of x w] obtain es where
    es: "trace (body x w) = trace w @ es" "list_all P es" by auto
  from Cons.IH [of "body x w"] Cons.prems obtain es' where
    es': "trace (fold body xs (body x w)) = trace (body x w) @ es'" "list_all P es'"
    by auto
  from es es' have "trace (fold body (x # xs) w) = trace w @ (es @ es') \<and> list_all P (es @ es')"
    by simp
  then show ?case by blast
qed

lemma new_effects_append: "trace w' = trace w @ es \<Longrightarrow> new_effects w w' = es"
  by (simp add: new_effects_def)

lemma selected_ids_distinct:
  "distinct (map deposit_id ds) \<Longrightarrow>
     distinct (map deposit_id (filterDepositsActivityTime now ds))"
  by (simp add: filterDepositsActivityTime_def distinct_map_filter)

lemma listed_once:
  assumes "distinct (map deposit_id ds)" and "d \<in> set ds" and "x \<in> set ds"
    and "deposit_id x = deposit_id d"
  shows "x = d"
  using assms by (meson distinct_map inj_onD)

lemma recent_not_selected:
  assumes "distinct (map deposit_id ds)" and "d \<in> set ds"
    and "now - lastActivityAt (dates d) \<le> TIME_TO_RETRY"
  shows "deposit_id d \<notin> deposit_id ` set (filterDepositsActivityTime now ds)"
proof
  assume "deposit_id d \<in> deposit_id ` set (filterDepositsActivityTime now ds)"
  then obtain x where x: "x \<in> set ds" "now - lastActivityAt (dates x) > TIME_TO_RETRY"
      "deposit_id x = deposit_id d"
    by (auto simp: filterDepositsActivityTime_def)
  with assms have "x = d" by (simp add: listed_once)
  with x assms(3) show False by simp
qed

lemma processInitializeDeposits_untouched:
  assumes "distinct (map deposit_id ds)" and "d \<in> set ds"
    and "now - lastActivityAt (dates d) \<le> TIME_TO_RETRY"
  shows "untouched (deposit_id d) w (processInitializeDeposits_listed now chain ds w)"
  using fold_untouched [of "processInitializeDeposits_body now chain", OF
      only_touches_processInitializeDeposits_body recent_not_selected [OF assms]]
  by (simp add: processInitializeDeposits_listed_def Let_def untouched_refl
      processInitializeDeposits_loop_fold)

lemma processFinalizeDeposits_untouched:
  assumes "distinct (map deposit_id ds)" and "d \<in> set ds"
    and "now - lastActivityAt (dates d) \<le> TIME_TO_RETRY"
  shows "untouched (deposit_id d) w (processFinalizeDeposits_listed now chain ds w)"
  using fold_untouched [of "processFinalizeDeposits_body now chain", OF
      only_touches_processFinalizeDeposits_body recent_not_selected [OF assms]]
  by (simp add: processFinalizeDeposits_listed_def Let_def untouched_refl
      processFinalizeDeposits_loop_fold)

text \<open>
  C7. \<open>TIME_TO_RETRY\<close> is 300000 ms. Of the deposits the store lists for a pass (each id
  listed once), one with \<open>now - lastActivityAt \<le> TIME_TO_RETRY\<close> is not among those the
  pass goes on with, and neither pass does anything for it: its record is what it was,
  and no effect of the pass (file write, status read, pre-flight call, transaction) is
  about its id. So a pass processes a deposit only if
  \<open>now - lastActivityAt > TIME_TO_RETRY\<close>. This holds of the passes from the listing on, for
  every list, and of the passes themselves on every store.
\<close>

theorem throttle_skips_recent:
  assumes "distinct (map deposit_id ds)" and "d \<in> set ds"
    and "now - lastActivityAt (dates d) \<le> TIME_TO_RETRY"
  shows "TIME_TO_RETRY = 300000 \<and>
         d \<notin> set (filterDepositsActivityTime now ds) \<and>
         getJsonById (deposit_id d) (processInitializeDeposits_listed now chain ds w) =
           getJsonById (deposit_id d) w \<and>
         list_all (\<lambda>e. effect_id e \<noteq> deposit_id d)
           (new_effects w (processInitializeDeposits_listed now chain ds w)) \<and>
         getJsonById (deposit_id d) (processFinalizeDeposits_listed now chain ds w) =
           getJsonById (deposit_id d) w \<and>
         list_all (\<lambda>e. effect_id e \<noteq> deposit_id d)
           (new_effects w (processFinalizeDeposits_listed now chain ds w)) \<and>
         getJsonById (deposit_id d) (processInitializeDeposits now chain w) =
           getJsonById (deposit_id d) w \<and>
         list_all (\<lambda>e. effect_id e \<noteq> deposit_id d)
           (new_effects w (processInitializeDeposits now chain w)) \<and>
         getJsonById (deposit_id d) (processFinalizeDeposits now chain w) =
           getJsonById (deposit_id d) w \<and>
         list_all (\<lambda>e. effect_id e \<noteq> deposit_id d)
           (new_effects w (processFinalizeDeposits now chain w))"
proof -
  have "d \<notin> set (filterDepositsActivityTime now ds)"
    using assms(3) by (simp add: filterDepositsActivityTime_def)
  moreover have "TIME_TO_RETRY = 300000"
    by (simp add: TIME_TO_RETRY_def)
  moreover note processInitializeDeposits_untouched [OF assms, where chain = chain and w = w]
    processFinalizeDeposits_untouched [OF assms, where chain = chain and w = w]
  moreover have "new_effects w w = []"
    by (simp add: new_effects_def)
  ultimately show ?thesis
    by (simp add: untouched_new_effects processInitializeDeposits_lists_nothing
        processFinalizeDeposits_lists_nothing) (simp add: untouched_def)
qed

theorem throttle_skips_recent_witness:
  "getJsonById ''37''
     (processInitializeDeposits_listed 400000 (sample_chain (Resolves ()) (Resolves 0) (Resolves 0))
        [sample_deposit, recent_deposit] sample_world) = Some recent_deposit \<and>
   list_all (\<lambda>e. effect_id e \<noteq> ''37'')
     (new_effects sample_world
        (processInitializeDeposits_listed 400000 (sample_chain (Resolves ()) (Resolves 0) (Resolves 0))
           [sample_deposit, recent_deposit] sample_world)) \<and>
   getJsonById ''37''
     (processFinalizeDeposits_listed 400000 (sample_chain (Resolves ()) (Resolves 0) (Resolves 0))
        [sample_deposit, recent_deposit] sample_world) = Some recent_deposit \<and>
   list_all (\<lambda>e. effect_id e \<noteq> ''37'')
     (new_effects sample_world
        (processFinalizeDeposits_listed 400000 (sample_chain (Resolves ()) (Resolves 0) (Resolves 0))
           [sample_deposit, recent_deposit] sample_world)) \<and>
   getJsonById ''37''
     (processInitializeDeposits 400000 (sample_chain (Resolves ()) (Resolves 0) (Resolves 0))
        sample_world) = Some recent_deposit \<and>
   list_all (\<lambda>e. effect_id e \<noteq> ''37'')
     (new_effects sample_world
        (processInitializeDeposits 400000 (sample_chain (Resolves ()) (Resolves 0) (Resolves 0))
           sample_world)) \<and>
   getJsonById ''37''
     (processFinalizeDeposits 400000 (sample_chain (Resolves ()) (Resolves 0) (Resolves 0))
        sample_world) = Some recent_deposit \<and>
   list_all (\<lambda>e. effect_id e \<noteq> ''37'')
     (new_effects sample_world
        (processFinalizeDeposits 400000 (sample_chain (Resolves ()) (Resolves 0) (Resolves 0))
           sample_world))"
proof -
  have i: "distinct (map deposit_id [sample_deposit, recent_deposit])"
    by (simp add: sample_deposit_def recent_deposit_def)
  have m: "recent_deposit \<in> set [sample_deposit, recent_deposit]"
    by simp
  have r: "400000 - lastActivityAt (dates recent_deposit) \<le> TIME_TO_RETRY"
    by (simp add: recent_deposit_def TIME_TO_RETRY_def)
  have k: "deposit_id recent_deposit = ''37''"
    by (simp add: recent_deposit_def)
  have g: "getJsonById ''37'' sample_world = Some recent_deposit"
    by (simp add: getJsonById_def sample_world_def)
  show ?thesis
    using throttle_skips_recent [OF i m r,
        where chain = "sample_chain (Resolves ()) (Resolves 0) (Resolves 0)"
          and w = sample_world]
    by (simp add: k g)
qed

lemma processInitializeDeposits_body_initialized:
  assumes "deposits chain (deposit_id d) = Resolves INITIALIZED"
  shows "getJsonById (deposit_id d) (processInitializeDeposits_body now chain d w) =
           Some (d\<lparr>status := INITIALIZED,
                   dates := (dates d)\<lparr>initializationAt := Some now, lastActivityAt := now\<rparr>,
                   hashes := (hashes d)\<lparr>eth := (eth (hashes d))\<lparr>initializeTxHash := None\<rparr>\<rparr>,
                   error := None\<rparr>)"
    and "trace (processInitializeDeposits_body now chain d w) =
           trace w @ [Wrote (deposit_id d), ReadDeposits (deposit_id d), Wrote (deposit_id d)]"
  using assms
  by (simp_all add: processInitializeDeposits_body_def updateLastActivity_def
      checkDepositStatus_def updateToInitializedDeposit_def getJsonById_writeJson Let_def)

lemma processInitializeDeposits_body_finalized:
  assumes "deposits chain (deposit_id d) = Resolves FINALIZED"
  shows "getJsonById (deposit_id d) (processInitializeDeposits_body now chain d w) =
           Some (d\<lparr>status := FINALIZED,
                   dates := (dates d)\<lparr>finalizationAt := Some now, lastActivityAt := now\<rparr>,
                   hashes := (hashes d)\<lparr>eth := (eth (hashes d))\<lparr>finalizeTxHash := None\<rparr>\<rparr>,
                   error := None\<rparr>)"
    and "trace (processInitializeDeposits_body now chain d w) =
           trace w @ [Wrote (deposit_id d), ReadDeposits (deposit_id d), Wrote (deposit_id d)]"
  using assms
  by (simp_all add: processInitializeDeposits_body_def updateLastActivity_def
      checkDepositStatus_def updateToFinalizedDeposit_def getJsonById_writeJson Let_def
      QUEUED_def INITIALIZED_def FINALIZED_def)

lemma processFinalizeDeposits_body_finalized:
  assumes "deposits chain (deposit_id d) = Resolves FINALIZED"
  shows "getJsonById (deposit_id d) (processFinalizeDeposits_body now chain d w) =
           Some (d\<lparr>status := FINALIZED,
                   dates := (dates d)\<lparr>finalizationAt := Some now, lastActivityAt := now\<rparr>,
                   hashes := (hashes d)\<lparr>eth := (eth (hashes d))\<lparr>finalizeTxHash := None\<rparr>\<rparr>,
                   error := None\<rparr>)"
    and "trace (processFinalizeDeposits_body now chain d w) =
           trace w @ [Wrote (deposit_id d), ReadDeposits (deposit_id d), Wrote (deposit_id d)]"
  using assms
  by (simp_all add: processFinalizeDeposits_body_def updateLastActivity_def
      checkDepositStatus_def updateToFinalizedDeposit_def getJsonById_writeJson Let_def
      QUEUED_def INITIALIZED_def FINALIZED_def)

lemma other_id_sends_nothing: "effect_id e \<noteq> k \<Longrightarrow> sends_nothing_for k e"
  by (cases e) (auto simp: sends_nothing_for_def)

lemma only_touches_sends_nothing:
  assumes "only_touches k' w w'" and "k' \<noteq> k"
  shows "\<exists>es. trace w' = trace w @ es \<and> list_all (sends_nothing_for k) es"
proof -
  from assms(1) obtain es where
    es: "trace w' = trace w @ es" "\<forall>e \<in> set es. effect_id e = k'"
    by (auto simp: only_touches_def)
  with assms(2) have "list_all (sends_nothing_for k) es"
    by (auto simp: list_all_iff intro: other_id_sends_nothing)
  with es show ?thesis by blast
qed

lemma selected_member:
  assumes "d \<in> set ds" and "now - lastActivityAt (dates d) > TIME_TO_RETRY"
  shows "d \<in> set (filterDepositsActivityTime now ds)"
  using assms by (simp add: filterDepositsActivityTime_def)

lemma fast_forward_pass:
  assumes frame: "\<And>x w. only_touches (deposit_id x) w (body x w)"
    and own: "\<And>w. getJsonById (deposit_id d) (body d w) = Some r"
    and quiet: "\<And>w. trace (body d w) =
        trace w @ [Wrote (deposit_id d), ReadDeposits (deposit_id d), Wrote (deposit_id d)]"
    and "distinct (map deposit_id ds)" and "d \<in> set ds"
  shows "getJsonById (deposit_id d) (fold body ds w) = Some r \<and>
         list_all (sends_nothing_for (deposit_id d)) (new_effects w (fold body ds w))"
proof -
  have "\<exists>es. trace (body x w) = trace w @ es \<and> list_all (sends_nothing_for (deposit_id d)) es"
    if "x \<in> set ds" for x w
  proof (cases "deposit_id x = deposit_id d")
    case True
    with that assms(4,5) have "x = d"
      by (meson distinct_map inj_onD)
    with quiet [of w] show ?thesis by (simp add: sends_nothing_for_def)
  next
    case False
    with frame [of x w] show ?thesis by (rule only_touches_sends_nothing)
  qed
  then have "\<exists>es. trace (fold body ds w) = trace w @ es \<and>
      list_all (sends_nothing_for (deposit_id d)) es"
    by (rule fold_effects)
  then have "list_all (sends_nothing_for (deposit_id d)) (new_effects w (fold body ds w))"
    by (auto simp: new_effects_append)
  with fold_record [OF frame own assms(4,5)] show ?thesis by simp
qed

lemma processInitializeDeposits_selected:
  assumes "d \<in> set ds" and "now - lastActivityAt (dates d) > TIME_TO_RETRY"
  shows "processInitializeDeposits_listed now chain ds w =
           fold (processInitializeDeposits_body now chain) (filterDepositsActivityTime now ds) w"
  using selected_member [OF assms] assms(1)
  by (auto simp: processInitializeDeposits_listed_def Let_def processInitializeDeposits_loop_fold)

lemma processFinalizeDeposits_selected:
  assumes "d \<in> set ds" and "now - lastActivityAt (dates d) > TIME_TO_RETRY"
  shows "processFinalizeDeposits_listed now chain ds w =
           fold (processFinalizeDeposits_body now chain) (filterDepositsActivityTime now ds) w"
  using selected_member [OF assms] assms(1)
  by (auto simp: processFinalizeDeposits_listed_def Let_def processFinalizeDeposits_loop_fold)

lemma processInitializeDeposits_fast_forward:
  assumes "distinct (map deposit_id ds)" and "d \<in> set ds"
    and "now - lastActivityAt (dates d) > TIME_TO_RETRY"
    and own: "\<And>w. getJsonById (deposit_id d) (processInitializeDeposits_body now chain d w) =
        Some r"
    and quiet: "\<And>w. trace (processInitializeDeposits_body now chain d w) =
        trace w @ [Wrote (deposit_id d), ReadDeposits (deposit_id d), Wrote (deposit_id d)]"
  shows "getJsonById (deposit_id d) (processInitializeDeposits_listed now chain ds w) = Some r \<and>
         list_all (sends_nothing_for (deposit_id d))
           (new_effects w (processInitializeDeposits_listed now chain ds w))"
  using fast_forward_pass [of "processInitializeDeposits_body now chain", OF
      only_touches_processInitializeDeposits_body own quiet
      selected_ids_distinct [OF assms(1)] selected_member [OF assms(2,3)]]
  by (simp add: processInitializeDeposits_selected [OF assms(2,3)])

lemma processFinalizeDeposits_fast_forward:
  assumes "distinct (map deposit_id ds)" and "d \<in> set ds"
    and "now - lastActivityAt (dates d) > TIME_TO_RETRY"
    and own: "\<And>w. getJsonById (deposit_id d) (processFinalizeDeposits_body now chain d w) =
        Some r"
    and quiet: "\<And>w. trace (processFinalizeDeposits_body now chain d w) =
        trace w @ [Wrote (deposit_id d), ReadDeposits (deposit_id d), Wrote (deposit_id d)]"
  shows "getJsonById (deposit_id d) (processFinalizeDeposits_listed now chain ds w) = Some r \<and>
         list_all (sends_nothing_for (deposit_id d))
           (new_effects w (processFinalizeDeposits_listed now chain ds w))"
  using fast_forward_pass [of "processFinalizeDeposits_body now chain", OF
      only_touches_processFinalizeDeposits_body own quiet
      selected_ids_distinct [OF assms(1)] selected_member [OF assms(2,3)]]
  by (simp add: processFinalizeDeposits_selected [OF assms(2,3)])

text \<open>
  From the listing on, the passes fast-forward a record whose on-chain status is
  ahead. A listed deposit (each id listed once) with activity older than
  \<open>TIME_TO_RETRY\<close>: when INITIALIZED is read for it in \<open>processInitializeDeposits\<close>, or
  FINALIZED there or in \<open>processFinalizeDeposits\<close>, the store afterwards holds the record
  with the status read, the corresponding transaction hash null, the corresponding
  timestamp and \<open>lastActivityAt\<close> set to now and the error cleared; and no pre-flight
  call was made and no transaction sent for this deposit.
\<close>

lemma listed_on_chain_ahead_fast_forward:
  assumes "distinct (map deposit_id ds)" and "d \<in> set ds"
    and "now - lastActivityAt (dates d) > TIME_TO_RETRY"
  shows "(status d = QUEUED \<and> deposits chain (deposit_id d) = Resolves INITIALIZED \<longrightarrow>
            getJsonById (deposit_id d) (processInitializeDeposits_listed now chain ds w) =
              Some (d\<lparr>status := INITIALIZED,
                      dates := (dates d)\<lparr>initializationAt := Some now, lastActivityAt := now\<rparr>,
                      hashes := (hashes d)\<lparr>eth := (eth (hashes d))\<lparr>initializeTxHash := None\<rparr>\<rparr>,
                      error := None\<rparr>) \<and>
            list_all (sends_nothing_for (deposit_id d))
              (new_effects w (processInitializeDeposits_listed now chain ds w))) \<and>
         (status d = QUEUED \<and> deposits chain (deposit_id d) = Resolves FINALIZED \<longrightarrow>
            getJsonById (deposit_id d) (processInitializeDeposits_listed now chain ds w) =
              Some (d\<lparr>status := FINALIZED,
                      dates := (dates d)\<lparr>finalizationAt := Some now, lastActivityAt := now\<rparr>,
                      hashes := (hashes d)\<lparr>eth := (eth (hashes d))\<lparr>finalizeTxHash := None\<rparr>\<rparr>,
                      error := None\<rparr>) \<and>
            list_all (sends_nothing_for (deposit_id d))
              (new_effects w (processInitializeDeposits_listed now chain ds w))) \<and>
         (status d = INITIALIZED \<and> deposits chain (deposit_id d) = Resolves FINALIZED \<longrightarrow>
            getJsonById (deposit_id d) (processFinalizeDeposits_listed now chain ds w) =
              Some (d\<lparr>status := FINALIZED,
                      dates := (dates d)\<lparr>finalizationAt := Some now, lastActivityAt := now\<rparr>,
                      hashes := (hashes d)\<lparr>eth := (eth (hashes d))\<lparr>finalizeTxHash := None\<rparr>\<rparr>,
                      error := None\<rparr>) \<and>
            list_all (sends_nothing_for (deposit_id d))
              (new_effects w (processFinalizeDeposits_listed now chain ds w)))"
proof -
  have a: "getJsonById (deposit_id d) (processInitializeDeposits_listed now chain ds w) =
          Some (d\<lparr>status := INITIALIZED,
                  dates := (dates d)\<lparr>initializationAt := Some now, lastActivityAt := now\<rparr>,
                  hashes := (hashes d)\<lparr>eth := (eth (hashes d))\<lparr>initializeTxHash := None\<rparr>\<rparr>,
                  error := None\<rparr>) \<and>
        list_all (sends_nothing_for (deposit_id d))
          (new_effects w (processInitializeDeposits_listed now chain ds w))"
    if r: "deposits chain (deposit_id d) = Resolves INITIALIZED"
    by (rule processInitializeDeposits_fast_forward [OF assms
          processInitializeDeposits_body_initialized(1) [OF r]
          processInitializeDeposits_body_initialized(2) [OF r]])
  have b: "getJsonById (deposit_id d) (processInitializeDeposits_listed now chain ds w) =
          Some (d\<lparr>status := FINALIZED,
                  dates := (dates d)\<lparr>finalizationAt := Some now, lastActivityAt := now\<rparr>,
                  hashes := (hashes d)\<lparr>eth := (eth (hashes d))\<lparr>finalizeTxHash := None\<rparr>\<rparr>,
                  error := None\<rparr>) \<and>
        list_all (sends_nothing_for (deposit_id d))
          (new_effects w (processInitializeDeposits_listed now chain ds w))"
    if r: "deposits chain (deposit_id d) = Resolves FINALIZED"
    by (rule processInitializeDeposits_fast_forward [OF assms
          processInitializeDeposits_body_finalized(1) [OF r]
          processInitializeDeposits_body_finalized(2) [OF r]])
  have c: "getJsonById (deposit_id d) (processFinalizeDeposits_listed now chain ds w) =
          Some (d\<lparr>status := FINALIZED,
                  dates := (dates d)\<lparr>finalizationAt := Some now, lastActivityAt := now\<rparr>,
                  hashes := (hashes d)\<lparr>eth := (eth (hashes d))\<lparr>finalizeTxHash := None\<rparr>\<rparr>,
                  error := None\<rparr>) \<and>
        list_all (sends_nothing_for (deposit_id d))
          (new_effects w (processFinalizeDeposits_listed now chain ds w))"
    if r: "deposits chain (deposit_id d) = Resolves FINALIZED"
    by (rule processFinalizeDeposits_fast_forward [OF assms
          processFinalizeDeposits_body_finalized(1) [OF r]
          processFinalizeDeposits_body_finalized(2) [OF r]])
  from a b c show ?thesis by blast
qed

text \<open>
  On a store in which every file holds the record of the id it is named after, the
  records of one status are such a list, and a pass run on them leaves every stored
  deposit with recent activity alone.
\<close>

lemma store_ids_distinct:
  assumes "well_formed w"
  shows "distinct (map deposit_id (getAllJsonOperations w))"
proof -
  from assms have "map deposit_id (getAllJsonOperations w) = map fst (store w)"
    by (auto simp: well_formed_def getAllJsonOperations_def list_all_iff)
  with assms show ?thesis
    by (simp add: well_formed_def)
qed

lemma store_status_ids_distinct:
  "well_formed w \<Longrightarrow> distinct (map deposit_id (getAllJsonOperationsByStatus st w))"
  by (simp add: getAllJsonOperationsByStatus_def distinct_map_filter store_ids_distinct)

lemma stored_recent_not_selected:
  assumes "well_formed w" and "d \<in> set (getAllJsonOperations w)"
    and "now - lastActivityAt (dates d) \<le> TIME_TO_RETRY"
  shows "deposit_id d \<notin> deposit_id `
           set (filterDepositsActivityTime now (getAllJsonOperationsByStatus st w))"
proof -
  have "set (filterDepositsActivityTime now (getAllJsonOperationsByStatus st w)) \<subseteq>
        set (filterDepositsActivityTime now (getAllJsonOperations w))"
    by (auto simp: filterDepositsActivityTime_def getAllJsonOperationsByStatus_def)
  with recent_not_selected [OF store_ids_distinct [OF assms(1)] assms(2,3)]
  show ?thesis by blast
qed

lemma stored_recent_untouched:
  assumes "well_formed w" and "d \<in> set (getAllJsonOperations w)"
    and "now - lastActivityAt (dates d) \<le> TIME_TO_RETRY"
  shows "untouched (deposit_id d) w
           (processInitializeDeposits_listed now chain
              (getAllJsonOperationsByStatus (StatusNumber QUEUED) w) w)"
    and "untouched (deposit_id d) w
           (processFinalizeDeposits_listed now chain
              (getAllJsonOperationsByStatus (StatusNumber INITIALIZED) w) w)"
  using fold_untouched [of "processInitializeDeposits_body now chain", OF
      only_touches_processInitializeDeposits_body stored_recent_not_selected [OF assms]]
    fold_untouched [of "processFinalizeDeposits_body now chain", OF
      only_touches_processFinalizeDeposits_body stored_recent_not_selected [OF assms]]
  by (simp_all add: processInitializeDeposits_listed_def processFinalizeDeposits_listed_def
      Let_def untouched_refl processInitializeDeposits_loop_fold
      processFinalizeDeposits_loop_fold)

lemma sample_world_well_formed: "well_formed sample_world"
  by (simp add: well_formed_def sample_world_def sample_deposit_def recent_deposit_def)


subsection \<open>Reading the on-chain status\<close>

text \<open>
  What \<open>checkDepositStatus\<close> returns, and what the loop bodies do with a number that is no
  status: nothing beyond the \<open>lastActivityAt\<close> bump and the read.
\<close>

lemma checkDepositStatus_resolves:
  "deposits chain k = Resolves n \<Longrightarrow> checkDepositStatus chain k w = (n, emit (ReadDeposits k) w)"
  by (simp add: checkDepositStatus_def)

lemma checkDepositStatus_rejects:
  "deposits chain k = Rejects r \<Longrightarrow>
     checkDepositStatus chain k w = (QUEUED, emit (ReadDeposits k) w)"
  by (simp add: checkDepositStatus_def QUEUED_def)

lemma processInitializeDeposits_body_unknown:
  assumes "deposits chain (deposit_id d) = Resolves n"
    and "n \<notin> {QUEUED, INITIALIZED, FINALIZED}"
  shows "processInitializeDeposits_body now chain d w =
           emit (ReadDeposits (deposit_id d)) (snd (updateLastActivity now d w))"
  using assms
  by (simp add: processInitializeDeposits_body_def updateLastActivity_def Let_def
      checkDepositStatus_resolves)

lemma processFinalizeDeposits_body_unknown:
  assumes "deposits chain (deposit_id d) = Resolves n"
    and "n \<notin> {INITIALIZED, FINALIZED}"
  shows "processFinalizeDeposits_body now chain d w =
           emit (ReadDeposits (deposit_id d)) (snd (updateLastActivity now d w))"
  using assms
  by (simp add: processFinalizeDeposits_body_def updateLastActivity_def Let_def
      checkDepositStatus_resolves)

text \<open>
  C8. \<open>checkDepositStatus\<close> answers null when the deposit is not found, and treats a
  failed read of the contract and a number that is no status as absent, not as a valid
  status. The handler's function has no null result: a failed read is answered with 0,
  which is QUEUED, and a number that is no status is handed on as it is.
\<close>

theorem checkDepositStatus_failed_read:
  "fst (checkDepositStatus (sample_chain (Resolves ()) (Resolves 0) (Rejects None)) ''36''
          empty_world) = QUEUED \<and>
   fst (checkDepositStatus
          (sample_chain (Resolves ()) (Resolves 0) (Rejects (Some ''missing response'')))
          ''36'' empty_world) = QUEUED \<and>
   fst (checkDepositStatus (sample_chain (Resolves ()) (Resolves 0) (Resolves 7)) ''36''
          empty_world) = 7"
  by (simp add: checkDepositStatus_def sample_chain_def QUEUED_def)

subsection \<open>Block search by timestamp\<close>

lemma search_blocks_candidate:
  "loop_value (search_blocks gb t lo hi st) = st \<or>
   (\<exists>ts. gb (loop_value (search_blocks gb t lo hi st)) = Resolves (Some ts) \<and> ts \<le> t \<and>
      lo \<le> loop_value (search_blocks gb t lo hi st) \<and>
      loop_value (search_blocks gb t lo hi st) \<le> hi)"
proof (induction gb t lo hi st rule: search_blocks.induct)
  case (1 gb t lo hi st)
  show ?case
  proof (cases "lo \<le> hi")
    case False
    then show ?thesis by (simp add: search_blocks.simps)
  next
    case True
    let ?mid = "(lo + hi) div 2"
    from True have m: "lo \<le> ?mid" "?mid \<le> hi" by simp_all
    show ?thesis
    proof (cases "gb ?mid")
      case (Rejects r)
      with True show ?thesis
        by (simp add: search_blocks.simps [of gb t lo hi st] Let_def)
    next
      case (Resolves b)
      show ?thesis
      proof (cases b)
        case None
        from True Resolves None
        have e: "search_blocks gb t lo hi st = search_blocks gb t lo (?mid - 1) st"
          by (simp add: search_blocks.simps [of gb t lo hi st] Let_def)
        from "1.IH"(1) [OF True refl Resolves None] m show ?thesis
          unfolding e by auto
      next
        case (Some ts)
        consider "ts = t" | "ts < t" | "t < ts" by linarith
        then show ?thesis
        proof cases
          case 1
          with True Resolves Some m show ?thesis
            by (simp add: search_blocks.simps [of gb t lo hi st] Let_def)
        next
          case 2
          with True Resolves Some
          have e: "search_blocks gb t lo hi st = search_blocks gb t (?mid + 1) hi ?mid"
            by (simp add: search_blocks.simps [of gb t lo hi st] Let_def)
          from 2 have "ts \<noteq> t" by simp
          from "1.IH"(2) [OF True refl Resolves Some this 2] m 2 Resolves Some show ?thesis
            unfolding e by auto
        next
          case 3
          with True Resolves Some
          have e: "search_blocks gb t lo hi st = search_blocks gb t lo (?mid - 1) st"
            by (simp add: search_blocks.simps [of gb t lo hi st] Let_def)
          from 3 have n: "ts \<noteq> t" "\<not> ts < t" by simp_all
          from "1.IH"(3) [OF True refl Resolves Some n] m show ?thesis
            unfolding e by auto
        qed
      qed
    qed
  qed
qed

lemma search_blocks_no_rejection:
  "(\<forall>n. \<exists>b. gb n = Resolves b) \<longrightarrow> (\<exists>s. search_blocks gb t lo hi st = Left s)"
proof (induction gb t lo hi st rule: search_blocks.induct)
  case (1 gb t lo hi st)
  show ?case
  proof
    assume a: "\<forall>n. \<exists>b. gb n = Resolves b"
    show "\<exists>s. search_blocks gb t lo hi st = Left s"
    proof (cases "lo \<le> hi")
      case False
      then show ?thesis by (simp add: search_blocks.simps)
    next
      case True
      let ?mid = "(lo + hi) div 2"
      from a obtain b where b: "gb ?mid = Resolves b" by blast
      show ?thesis
      proof (cases b)
        case None
        with True b "1.IH"(1) [OF True refl b None] a show ?thesis
          by (simp add: search_blocks.simps [of gb t lo hi st] Let_def)
      next
        case (Some ts)
        consider "ts = t" | "ts < t" | "t < ts" by linarith
        then show ?thesis
        proof cases
          case 1
          with True b Some show ?thesis
            by (simp add: search_blocks.simps [of gb t lo hi st] Let_def)
        next
          case 2
          then have "ts \<noteq> t" by simp
          from "1.IH"(2) [OF True refl b Some this 2] a True b Some 2 show ?thesis
            by (simp add: search_blocks.simps [of gb t lo hi st] Let_def)
        next
          case 3
          then have n: "ts \<noteq> t" "\<not> ts < t" by simp_all
          from "1.IH"(3) [OF True refl b Some n] a True b Some n show ?thesis
            by (simp add: search_blocks.simps [of gb t lo hi st] Let_def)
        qed
      qed
    qed
  qed
qed

lemma getBlocksByTimestamp_endBlock:
  "endBlock (getBlocksByTimestamp START_BLOCK gb t latestBlock) = latestBlock"
  by (simp add: getBlocksByTimestamp_def split: loop_end.split)

lemma getBlocksByTimestamp_without_rejection:
  assumes "\<forall>n. \<exists>b. gb n = Resolves b"
  shows "endBlock (getBlocksByTimestamp START_BLOCK gb t latestBlock) = latestBlock \<and>
         (startBlock (getBlocksByTimestamp START_BLOCK gb t latestBlock) = START_BLOCK \<or>
          (\<exists>ts. gb (startBlock (getBlocksByTimestamp START_BLOCK gb t latestBlock)) =
                  Resolves (Some ts) \<and> ts \<le> t \<and>
                START_BLOCK \<le> startBlock (getBlocksByTimestamp START_BLOCK gb t latestBlock) \<and>
                startBlock (getBlocksByTimestamp START_BLOCK gb t latestBlock) \<le> latestBlock))"
proof -
  from assms search_blocks_no_rejection [of gb t START_BLOCK latestBlock "- 1"]
  obtain s where s: "search_blocks gb t START_BLOCK latestBlock (- 1) = Left s" by blast
  from search_blocks_candidate [of gb t START_BLOCK latestBlock "- 1"] s
  have "s = - 1 \<or> (\<exists>ts. gb s = Resolves (Some ts) \<and> ts \<le> t \<and> START_BLOCK \<le> s \<and> s \<le> latestBlock)"
    by simp
  with s show ?thesis
    by (auto simp: getBlocksByTimestamp_def)
qed

lemma getBlocksByTimestamp_fallback:
  assumes "\<forall>n. \<exists>b. gb n = Resolves b"
    and "\<forall>n ts. START_BLOCK \<le> n \<and> n \<le> latestBlock \<and> gb n = Resolves (Some ts) \<longrightarrow> t < ts"
  shows "startBlock (getBlocksByTimestamp START_BLOCK gb t latestBlock) = START_BLOCK"
  using getBlocksByTimestamp_without_rejection [OF assms(1), of START_BLOCK t latestBlock]
    assms(2) by fastforce

text \<open>
  C9. \<open>getBlocksByTimestamp\<close> returns \<open>endBlock = latestBlock\<close> and a \<open>startBlock\<close> that is
  the last block found with a timestamp at most \<open>t\<close>, or \<open>START_BLOCK\<close> when none was found.
  While every header fetch resolves this is what the function does
  (\<open>getBlocksByTimestamp_without_rejection\<close>, \<open>getBlocksByTimestamp_fallback\<close>). The
  fallback to \<open>START_BLOCK\<close> sits inside the \<open>try\<close> block, though: when a fetch is rejected
  before any candidate is found, the function returns the marker \<open>-1\<close> as \<open>startBlock\<close>.
\<close>

theorem getBlocksByTimestamp_rejected_fetch:
  "getBlocksByTimestamp 0 (\<lambda>n. Rejects None) 1000 100 = \<lparr>startBlock = - 1, endBlock = 100\<rparr>"
  by (simp add: getBlocksByTimestamp_def search_blocks.simps [of _ _ 0 100])

subsection \<open>Duplicate and historical events\<close>

text \<open>
  What the \<open>DepositInitialized\<close> callback and the two scans do with an event, in general:
  the callback runs \<open>initializeDeposit\<close> on the record it has just built, stored or not,
  and a failed attempt leaves that record, QUEUED, in the store; the handler's scan does
  the same whenever nothing is stored under \<open>fundingTx.transactionHash\<close>; the stand-alone
  scan passes over an event whose derived id is stored.
\<close>

lemma createDeposit_queued:
  assumes "createDeposit ext now ftx rv l2Owner sender = Inr d"
  shows "status d = QUEUED"
  using assms by (auto simp: createDeposit_def Let_def split: sum.splits)

lemma on_DepositInitialized_created:
  assumes "createDeposit ext now ftx rv l2Owner sender = Inr d"
  shows "on_DepositInitialized ext now chain ftx rv l2Owner sender w =
           initializeDeposit now chain d
             (case getJsonById (deposit_id d) w of
                Some existing \<Rightarrow> w
              | None \<Rightarrow> writeJson d (deposit_id d) w)"
  using assms
  by (simp add: on_DepositInitialized_def writeNewJsonDeposit_def split: option.splits)

lemma on_DepositInitialized_rejected:
  assumes "createDeposit ext now ftx rv l2Owner sender = Inr d"
    and "initialize_rejection chain d = Some r"
  shows "map_option status
           (getJsonById (deposit_id d)
              (on_DepositInitialized ext now chain ftx rv l2Owner sender w)) = Some QUEUED"
  using assms
  by (simp add: on_DepositInitialized_created initializeDeposit_rejected createDeposit_queued)

lemma checkForPastDeposits_loop_unknown_key:
  assumes "getJsonById (key_of (transactionHash (fundingTx event))) w = None"
    and "createDeposit ext now (fundingTx event) (reveal event)
           (l2DepositOwner event) (l2Sender event) = Inr d"
  shows "checkForPastDeposits_loop ext now chain (event # events) w =
           checkForPastDeposits_loop ext now chain events
             (initializeDeposit now chain d
                (case getJsonById (deposit_id d) w of
                   Some existing \<Rightarrow> w
                 | None \<Rightarrow> writeJson d (deposit_id d) w))"
  using assms by (simp add: writeNewJsonDeposit_def split: option.splits)

lemma service_checkForPastDeposits_loop_stored:
  assumes "getDepositId (keccak ext) (getFundingTxHash ext (fundingTx event))
             (reveal0 (reveal event)) = Inr k"
    and "getJsonById k w = Some existingDeposit"
  shows "service_checkForPastDeposits_loop ext now attempt (event # events) w =
           service_checkForPastDeposits_loop ext now attempt events w"
  using assms by simp

lemma sample_createDeposit:
  "createDeposit sample_externals now (fundingTx sample_event) (reveal sample_event)
     (l2DepositOwner sample_event) (l2Sender sample_event) =
   Inr (sample_deposit\<lparr>dates := \<lparr>createdAt = Some now, initializationAt = None,
                                    finalizationAt = None, lastActivityAt = now\<rparr>\<rparr>)"
  by (simp add: createDeposit_def sample_externals_def sample_event_def sample_deposit_id
      sample_deposit_def)

text \<open>
  C1. The stored status of a deposit never decreases, whatever handlers and passes run.
  The \<open>DepositInitialized\<close> callback does not keep this: for an event whose deposit is
  already stored as FINALIZED, the write-if-absent leaves the stored record alone, but
  \<open>initializeDeposit\<close> is then run on the freshly built QUEUED record and persists it:
  as QUEUED with the error when the pre-flight call reverts, as INITIALIZED when the
  transaction goes through.
\<close>

theorem duplicate_event_lowers_status:
  "map_option status (getJsonById ''36'' finalized_world) = Some FINALIZED \<and>
   map_option status
     (getJsonById ''36''
        (on_DepositInitialized sample_externals 5000
           (sample_chain (Rejects (Some ''already initialized'')) (Resolves 0) (Resolves 2))
           (fundingTx sample_event) (reveal sample_event)
           (l2DepositOwner sample_event) (l2Sender sample_event) finalized_world)) = Some QUEUED \<and>
   map_option status
     (getJsonById ''36''
        (on_DepositInitialized sample_externals 5000
           (sample_chain (Resolves ()) (Resolves 0) (Resolves 2))
           (fundingTx sample_event) (reveal sample_event)
           (l2DepositOwner sample_event) (l2Sender sample_event) finalized_world)) = Some INITIALIZED"
proof -
  have g: "getJsonById ''36'' finalized_world = Some finalized_sample"
    by (simp add: getJsonById_def finalized_world_def)
  have k: "deposit_id sample_deposit = ''36''" "status sample_deposit = QUEUED"
    by (simp_all add: sample_deposit_def)
  have s: "status finalized_sample = FINALIZED"
    by (simp add: finalized_sample_def)
  show ?thesis
    by (simp add: on_DepositInitialized_def writeNewJsonDeposit_def sample_createDeposit g k s
        initializeDeposit_def updateToInitializedDeposit_def sample_chain_def
        getJsonById_writeJson Let_def)
qed

text \<open>
  C5. \<open>checkForPastDeposits\<close> skips an event whose derived deposit id is already stored:
  no record is written and no initialize attempt is made for it. The handler's scan looks
  the record up under \<open>fundingTx.transactionHash\<close> instead of the derived id. For the
  event of the sample record, stored as INITIALIZED under its derived id, it runs the
  pre-flight call again and overwrites the record with the fresh QUEUED one; the
  stand-alone scan, which looks up the derived id, leaves the store as it is.
\<close>

theorem past_scan_ignores_derived_id:
  "map_option status (getJsonById ''36'' initialized_world) = Some INITIALIZED \<and>
   getDepositId (keccak sample_externals)
     (getFundingTxHash sample_externals (fundingTx sample_event))
     (reveal0 (reveal sample_event)) = Inr ''36'' \<and>
   trace (checkForPastDeposits sample_externals 0 5000000
            (sample_chain (Rejects (Some ''already initialized'')) (Resolves 0) (Resolves 1))
            sample_l2 10 100 initialized_world) =
     [CallStaticInitialize ''36'', Wrote ''36''] \<and>
   map_option status
     (getJsonById ''36''
        (checkForPastDeposits sample_externals 0 5000000
           (sample_chain (Rejects (Some ''already initialized'')) (Resolves 0) (Resolves 1))
           sample_l2 10 100 initialized_world)) = Some QUEUED \<and>
   service_checkForPastDeposits_loop sample_externals 5000000
     (initializeDeposit 5000000
        (sample_chain (Rejects (Some ''already initialized'')) (Resolves 0) (Resolves 1)))
     [sample_event] initialized_world = initialized_world"
proof -
  have g: "getJsonById ''36'' initialized_world = Some initialized_sample"
      "getJsonById ''undefined'' initialized_world = None"
    by (simp_all add: getJsonById_def initialized_world_def)
  have k: "deposit_id sample_deposit = ''36''" "status sample_deposit = QUEUED"
    by (simp_all add: sample_deposit_def)
  have s: "status initialized_sample = INITIALIZED"
    by (simp add: initialized_sample_def)
  have h: "transactionHash (fundingTx sample_event) = None"
    by (simp add: sample_event_def)
  have i: "getDepositId (keccak sample_externals)
             (getFundingTxHash sample_externals (fundingTx sample_event))
             (reveal0 (reveal sample_event)) = Inr ''36''"
    by (simp add: sample_externals_def sample_event_def sample_deposit_id)
  have t: "trace initialized_world = []"
    by (simp add: initialized_world_def)
  show ?thesis
    by (simp add: checkForPastDeposits_def sample_l2_def key_of_def h g k s i t
        writeNewJsonDeposit_def sample_createDeposit initializeDeposit_def
        updateToInitializedDeposit_def sample_chain_def getJsonById_writeJson Let_def)
qed

end
